theory Spec2Isabelle
  imports Main "HOL-Library.Multiset"
begin

section \<open>Data model: the conversations and messages tables\<close>

text \<open>
  The messaging migration declares two tables. Identifiers are \<open>uuid\<close> columns that the
  TypeScript side handles as \<open>string\<close>; they are kept as their text here (the store's own
  parsing of uuid text is not part of the model). Timestamps are points on a discrete clock.
  The foreign keys of both tables point into \<open>profiles\<close>, \<open>listings\<close> and \<open>requests\<close>; of
  those tables only the primary keys matter here.
\<close>

type_synonym uuid = string
type_synonym timestamptz = nat

record conversation =
  conv_id :: uuid
  participant_1_id :: uuid
  participant_2_id :: uuid
  listing_id :: "uuid option"
  request_id :: "uuid option"
  last_message_at :: timestamptz
  conv_created_at :: timestamptz

record message =
  msg_id :: uuid
  conversation_id :: uuid
  sender_id :: uuid
  content :: string
  created_at :: timestamptz
  read_at :: "timestamptz option"

record database =
  profiles :: "uuid list"
  listings :: "uuid list"
  requests :: "uuid list"
  conversations :: "conversation list"
  messages :: "message list"

text \<open>
  What a request to the store can answer with besides rows: the request never reached the
  store, \<open>maybeSingle\<close>/\<open>single\<close> saw the wrong number of rows (PGRST116), a row-level
  security check rejected a new row (42501), or a key constraint did (23505, 23503).
\<close>

datatype store_error =
    Transport
  | MultipleRows
  | RlsViolation
  | UniqueViolation
  | ForeignKeyViolation

text \<open>
  What surrounds one call of an application function: the identity of the session
  (\<open>auth.uid()\<close>; \<open>None\<close> is a client that is not signed in, role \<open>anon\<close>), the store's
  clock (\<open>now()\<close>), the client's clock (\<open>new Date()\<close>), the value that
  \<open>gen_random_uuid()\<close> yields for a row inserted during the call, and which of the
  call's requests (numbered from 0) fail before they reach the store.
\<close>

record env =
  auth_uid :: "uuid option"
  now :: timestamptz
  client_now :: timestamptz
  gen_random_uuid :: uuid
  fails :: "nat \<Rightarrow> bool"

section \<open>Row-level security policies\<close>

text \<open>
  Each definition is the \<open>USING\<close>/\<open>WITH CHECK\<close> expression of one \<open>CREATE POLICY\<close>, with
  \<open>auth.uid()\<close> as first argument. The \<open>EXISTS\<close> sub-selects range over the conversations
  handed in, which are the ones the caller itself may see.
\<close>

definition users_can_view_own_conversations :: "uuid \<Rightarrow> conversation \<Rightarrow> bool" where
  "users_can_view_own_conversations uid c \<longleftrightarrow>
     uid = participant_1_id c \<or> uid = participant_2_id c"

definition users_can_create_conversations :: "uuid \<Rightarrow> conversation \<Rightarrow> bool" where
  "users_can_create_conversations uid c \<longleftrightarrow>
     uid = participant_1_id c \<or> uid = participant_2_id c"

definition conversation_participants_can_view_messages ::
  "conversation list \<Rightarrow> uuid \<Rightarrow> message \<Rightarrow> bool" where
  "conversation_participants_can_view_messages convs uid m \<longleftrightarrow>
     (\<exists>c \<in> set convs. conv_id c = conversation_id m \<and>
        (participant_1_id c = uid \<or> participant_2_id c = uid))"

definition authenticated_users_can_send_messages :: "uuid \<Rightarrow> message \<Rightarrow> bool" where
  "authenticated_users_can_send_messages uid m \<longleftrightarrow> uid = sender_id m"

definition recipients_can_update_read_at_timestamp ::
  "conversation list \<Rightarrow> uuid \<Rightarrow> message \<Rightarrow> bool" where
  "recipients_can_update_read_at_timestamp convs uid m \<longleftrightarrow>
     (\<exists>c \<in> set convs. conv_id c = conversation_id m \<and> participant_2_id c = uid)"

text \<open>
  Both tables have row-level security enabled, and every policy is permissive and granted
  \<open>TO authenticated\<close>. By the rules of PostgreSQL's row security, a row passes for a
  command when one of the policies declared for that command admits it; a command with no
  policy admits no row, and a session that is not signed in has no policy at all.
\<close>

datatype command = SELECT | INSERT | UPDATE | DELETE

fun conversation_policies :: "command \<Rightarrow> (uuid \<Rightarrow> conversation \<Rightarrow> bool) list" where
  "conversation_policies SELECT = [users_can_view_own_conversations]"
| "conversation_policies INSERT = [users_can_create_conversations]"
| "conversation_policies UPDATE = []"
| "conversation_policies DELETE = []"

fun message_policies ::
  "conversation list \<Rightarrow> command \<Rightarrow> (uuid \<Rightarrow> message \<Rightarrow> bool) list" where
  "message_policies convs SELECT = [conversation_participants_can_view_messages convs]"
| "message_policies convs INSERT = [authenticated_users_can_send_messages]"
| "message_policies convs UPDATE = [recipients_can_update_read_at_timestamp convs]"
| "message_policies convs DELETE = []"

definition permitted :: "(uuid \<Rightarrow> 'r \<Rightarrow> bool) list \<Rightarrow> uuid option \<Rightarrow> 'r \<Rightarrow> bool" where
  "permitted ps auth r =
     (case auth of None \<Rightarrow> False | Some uid \<Rightarrow> list_ex (\<lambda>p. p uid r) ps)"

section \<open>The store's commands under row-level security\<close>

definition visible_conversations :: "uuid option \<Rightarrow> database \<Rightarrow> conversation list" where
  "visible_conversations auth db =
     filter (permitted (conversation_policies SELECT) auth) (conversations db)"

definition visible_messages :: "uuid option \<Rightarrow> database \<Rightarrow> message list" where
  "visible_messages auth db =
     filter (permitted (message_policies (visible_conversations auth db) SELECT) auth)
       (messages db)"

text \<open>
  \<open>INSERT\<close>: the new row must pass the insert policy, and also the select policy when the
  statement returns the row (\<open>.insert(...).select()\<close>); a row that does not is an error,
  not a silent skip. The policy checks come before the key checks.
\<close>

definition insert_conversation ::
  "bool \<Rightarrow> uuid option \<Rightarrow> conversation \<Rightarrow> database \<Rightarrow> store_error + database" where
  "insert_conversation returning auth row db =
     (if \<not> permitted (conversation_policies INSERT) auth row then Inl RlsViolation
      else if returning \<and> \<not> permitted (conversation_policies SELECT) auth row
        then Inl RlsViolation
      else if conv_id row \<in> set (map conv_id (conversations db)) then Inl UniqueViolation
      else if participant_1_id row \<notin> set (profiles db)
            \<or> participant_2_id row \<notin> set (profiles db)
            \<or> (case listing_id row of None \<Rightarrow> False | Some l \<Rightarrow> l \<notin> set (listings db))
            \<or> (case request_id row of None \<Rightarrow> False | Some r \<Rightarrow> r \<notin> set (requests db))
        then Inl ForeignKeyViolation
      else Inr (db\<lparr>conversations := conversations db @ [row]\<rparr>))"

definition insert_message ::
  "bool \<Rightarrow> uuid option \<Rightarrow> message \<Rightarrow> database \<Rightarrow> store_error + database" where
  "insert_message returning auth row db =
     (let convs = visible_conversations auth db in
      if \<not> permitted (message_policies convs INSERT) auth row then Inl RlsViolation
      else if returning \<and> \<not> permitted (message_policies convs SELECT) auth row
        then Inl RlsViolation
      else if msg_id row \<in> set (map msg_id (messages db)) then Inl UniqueViolation
      else if conversation_id row \<notin> set (map conv_id (conversations db))
            \<or> sender_id row \<notin> set (profiles db)
        then Inl ForeignKeyViolation
      else Inr (db\<lparr>messages := messages db @ [row]\<rparr>))"

text \<open>
  \<open>UPDATE ... WHERE flt\<close>: the rows changed are those that match the filter, are visible
  to the caller and pass the update policy; the others are left alone without an error.
  Each changed row must pass the update policy (and stay visible) in its new state, or the
  statement is rejected as a whole; then the keys of the changed rows are checked. The
  migration declares an update policy for \<open>messages\<close> and none for \<open>conversations\<close>.
\<close>

definition update_conversations ::
  "uuid option \<Rightarrow> (conversation \<Rightarrow> bool) \<Rightarrow> (conversation \<Rightarrow> conversation) \<Rightarrow> database
     \<Rightarrow> store_error + database" where
  "update_conversations auth flt patch db =
     (let target = (\<lambda>c. flt c \<and> permitted (conversation_policies SELECT) auth c
                          \<and> permitted (conversation_policies UPDATE) auth c);
          rows' = map (\<lambda>c. if target c then patch c else c) (conversations db)
      in if \<exists>c \<in> set (conversations db). target c \<and>
              \<not> (permitted (conversation_policies UPDATE) auth (patch c)
                 \<and> permitted (conversation_policies SELECT) auth (patch c))
           then Inl RlsViolation
         else if \<exists>c \<in> set (conversations db). target c \<and>
              \<not> distinct (map conv_id rows')
           then Inl UniqueViolation
         else if \<exists>c \<in> set (conversations db). target c \<and>
                  (participant_1_id (patch c) \<notin> set (profiles db)
                 \<or> participant_2_id (patch c) \<notin> set (profiles db)
                 \<or> (case listing_id (patch c) of
                       None \<Rightarrow> False | Some l \<Rightarrow> l \<notin> set (listings db))
                 \<or> (case request_id (patch c) of
                       None \<Rightarrow> False | Some r \<Rightarrow> r \<notin> set (requests db)))
           then Inl ForeignKeyViolation
         else Inr (db\<lparr>conversations := rows'\<rparr>))"

definition update_messages ::
  "uuid option \<Rightarrow> (message \<Rightarrow> bool) \<Rightarrow> (message \<Rightarrow> message) \<Rightarrow> database
     \<Rightarrow> store_error + database" where
  "update_messages auth flt patch db =
     (let convs = visible_conversations auth db;
          target = (\<lambda>m. flt m \<and> permitted (message_policies convs SELECT) auth m
                          \<and> permitted (message_policies convs UPDATE) auth m);
          rows' = map (\<lambda>m. if target m then patch m else m) (messages db)
      in if \<exists>m \<in> set (messages db). target m \<and>
              \<not> (permitted (message_policies convs UPDATE) auth (patch m)
                 \<and> permitted (message_policies convs SELECT) auth (patch m))
           then Inl RlsViolation
         else if \<exists>m \<in> set (messages db). target m \<and>
              \<not> distinct (map msg_id rows')
           then Inl UniqueViolation
         else if \<exists>m \<in> set (messages db). target m \<and>
                  (conversation_id (patch m) \<notin> set (map conv_id (conversations db))
                 \<or> sender_id (patch m) \<notin> set (profiles db))
           then Inl ForeignKeyViolation
         else Inr (db\<lparr>messages := rows'\<rparr>))"

section \<open>The query builder\<close>

text \<open>
  A query is the list of its filters; \<open>.eq(column, value)\<close> adds one. On a nullable
  column a row matches when the column holds that value (a null never equals anything).
  \<open>maybeSingle\<close> yields the row, null for no row, and an error for several rows;
  \<open>.order(column, {ascending: false})\<close> sorts with the largest key first.
\<close>

type_synonym 'r query = "('r \<Rightarrow> bool) list"

definition eq :: "('r \<Rightarrow> 'v) \<Rightarrow> 'v \<Rightarrow> 'r query \<Rightarrow> 'r query" where
  "eq column v q = q @ [\<lambda>r. column r = v]"

definition eq_nullable :: "('r \<Rightarrow> 'v option) \<Rightarrow> 'v \<Rightarrow> 'r query \<Rightarrow> 'r query" where
  "eq_nullable column v q = q @ [\<lambda>r. column r = Some v]"

definition matches :: "'r query \<Rightarrow> 'r \<Rightarrow> bool" where
  "matches q r = list_all (\<lambda>p. p r) q"

definition maybeSingle :: "'r list \<Rightarrow> store_error + 'r option" where
  "maybeSingle rows =
     (case rows of [] \<Rightarrow> Inr None | [r] \<Rightarrow> Inr (Some r) | _ \<Rightarrow> Inl MultipleRows)"

definition order_descending :: "('r \<Rightarrow> nat) \<Rightarrow> 'r list \<Rightarrow> 'r list" where
  "order_descending column rows = rev (sort_key column rows)"

text \<open>JavaScript truthiness of a string, and of an optional string argument.\<close>

definition truthy :: "string \<Rightarrow> bool" where
  "truthy s \<longleftrightarrow> s \<noteq> []"

definition or_null :: "string option \<Rightarrow> string option" where
  "or_null a = (case a of None \<Rightarrow> None | Some s \<Rightarrow> if truthy s then Some s else None)"

section \<open>getOrCreateConversation\<close>

text \<open>
  The lookup is built from the two participant filters, and one more filter for each of
  \<open>listingId\<close> and \<open>requestId\<close> that is truthy.
\<close>

definition lookup_query ::
  "uuid \<Rightarrow> uuid \<Rightarrow> uuid option \<Rightarrow> uuid option \<Rightarrow> conversation query" where
  "lookup_query userId otherUserId listingId requestId =
     (let query = eq participant_2_id otherUserId (eq participant_1_id userId []);
          query = (case listingId of
                     Some l \<Rightarrow> if truthy l then eq_nullable listing_id l query else query
                   | None \<Rightarrow> query);
          query = (case requestId of
                     Some r \<Rightarrow> if truthy r then eq_nullable request_id r query else query
                   | None \<Rightarrow> query)
      in query)"

text \<open>
  The row that the insert sends; \<open>id\<close>, \<open>last_message_at\<close> and \<open>created_at\<close> are
  filled in by the column defaults.
\<close>

definition new_conversation ::
  "env \<Rightarrow> uuid \<Rightarrow> uuid \<Rightarrow> uuid option \<Rightarrow> uuid option \<Rightarrow> conversation" where
  "new_conversation e userId otherUserId listingId requestId =
     \<lparr>conv_id = gen_random_uuid e,
      participant_1_id = userId,
      participant_2_id = otherUserId,
      listing_id = or_null listingId,
      request_id = or_null requestId,
      last_message_at = now e,
      conv_created_at = now e\<rparr>"

definition getOrCreateConversation ::
  "env \<Rightarrow> uuid \<Rightarrow> uuid \<Rightarrow> uuid option \<Rightarrow> uuid option \<Rightarrow> database
     \<Rightarrow> store_error + (uuid \<times> database)" where
  "getOrCreateConversation e userId otherUserId listingId requestId db =
     (let query = lookup_query userId otherUserId listingId requestId in
      if fails e 0 then Inl Transport
      else case maybeSingle (filter (matches query) (visible_conversations (auth_uid e) db)) of
        Inl error \<Rightarrow> Inl error
      | Inr (Some data) \<Rightarrow> Inr (conv_id data, db)
      | Inr None \<Rightarrow>
          (let newConv = new_conversation e userId otherUserId listingId requestId
           in if fails e 1 then Inl Transport
              else case insert_conversation True (auth_uid e) newConv db of
                Inl createError \<Rightarrow> Inl createError
              | Inr db' \<Rightarrow> Inr (conv_id newConv, db')))"

section \<open>The chat screen\<close>

text \<open>
  The state of the screen: the \<open>id\<close> route parameter, and the \<open>messages\<close>,
  \<open>messageText\<close>, \<open>loading\<close> and \<open>sending\<close> state variables.
\<close>

record chat_screen =
  route_id :: "string option"
  messages_state :: "message list"
  messageText :: string
  loading :: bool
  sending :: bool

text \<open>
  \<open>String.prototype.trim\<close> on the white space and line terminators that a one-byte
  character can be: tab, line feed, vertical tab, form feed, carriage return, space and
  the no-break space U+00A0.
\<close>

definition white_space :: "char \<Rightarrow> bool" where
  "white_space ch \<longleftrightarrow>
     ch \<in> set [CHR 0x09, CHR 0x0A, CHR 0x0B, CHR 0x0C, CHR 0x0D, CHR '' '', CHR 0xA0]"

definition trim :: "string \<Rightarrow> string" where
  "trim s = rev (dropWhile white_space (rev (dropWhile white_space s)))"

text \<open>
  \<open>fetchMessages\<close> for the conversation \<open>cid\<close> (the effect that runs it does so only for
  a truthy \<open>id\<close>). It returns the error it logged, if any, and the new state.
\<close>

definition fetchMessages ::
  "env \<Rightarrow> uuid \<Rightarrow> chat_screen \<Rightarrow> database \<Rightarrow> store_error option \<times> chat_screen" where
  "fetchMessages e cid st db =
     (if fails e 0 then (Some Transport, st\<lparr>loading := False\<rparr>)
      else
        let data = order_descending created_at
                     (filter (matches (eq conversation_id cid []))
                        (visible_messages (auth_uid e) db))
        in (None, st\<lparr>messages_state := data, loading := False\<rparr>))"

text \<open>
  \<open>handleSendMessage\<close> ends in one of three ways: it returns at once, it shows the
  message it has sent, or it logs the error of the insert and puts the text back. Its two
  requests are the insert that returns the new row (\<open>.insert(...).select().single()\<close>)
  and the update of \<open>last_message_at\<close>, whose result is never looked at.
  A client that is not signed in sends no \<open>sender_id\<close>; as it has no policy, its insert
  is rejected whatever the row.
\<close>

datatype send_outcome = Returned | Sent message | Logged store_error

definition new_message :: "env \<Rightarrow> uuid \<Rightarrow> uuid \<Rightarrow> string \<Rightarrow> message" where
  "new_message e cid uid text =
     \<lparr>msg_id = gen_random_uuid e,
      conversation_id = cid,
      sender_id = uid,
      content = text,
      created_at = now e,
      read_at = None\<rparr>"

definition insert_single_message ::
  "env \<Rightarrow> uuid \<Rightarrow> string \<Rightarrow> database \<Rightarrow> store_error + (message \<times> database)" where
  "insert_single_message e cid text db =
     (if fails e 0 then Inl Transport
      else case auth_uid e of
        None \<Rightarrow> Inl RlsViolation
      | Some uid \<Rightarrow>
          (case insert_message True (auth_uid e) (new_message e cid uid text) db of
             Inl error \<Rightarrow> Inl error
           | Inr db1 \<Rightarrow> Inr (new_message e cid uid text, db1)))"

definition update_last_message_at :: "env \<Rightarrow> uuid \<Rightarrow> database \<Rightarrow> store_error + database" where
  "update_last_message_at e cid db =
     (if fails e 1 then Inl Transport
      else update_conversations (auth_uid e) (matches (eq conv_id cid []))
             (\<lambda>c. c\<lparr>last_message_at := client_now e\<rparr>) db)"

definition handleSendMessage ::
  "env \<Rightarrow> chat_screen \<Rightarrow> database \<Rightarrow> send_outcome \<times> chat_screen \<times> database" where
  "handleSendMessage e st db =
     (if \<not> truthy (trim (messageText st)) then (Returned, st, db)
      else case or_null (route_id st) of
        None \<Rightarrow> (Returned, st, db)
      | Some cid \<Rightarrow>
          (let text = messageText st;
               st1 = st\<lparr>sending := True, messageText := []\<rparr>
           in (case insert_single_message e cid text db of
                 Inl error \<Rightarrow>
                   (Logged error, st1\<lparr>messageText := text, sending := False\<rparr>, db)
               | Inr (data, db1) \<Rightarrow>
                   (let db2 = (case update_last_message_at e cid db1 of
                                 Inl _ \<Rightarrow> db1 | Inr db' \<Rightarrow> db')
                    in (Sent data,
                        st1\<lparr>messages_state := data # messages_state st1,
                            sending := False\<rparr>,
                        db2)))))"

section \<open>Constraints of the schema\<close>

text \<open>The primary keys and foreign keys that the two tables declare.\<close>

definition constraints :: "database \<Rightarrow> bool" where
  "constraints db \<longleftrightarrow>
     distinct (map conv_id (conversations db)) \<and>
     distinct (map msg_id (messages db)) \<and>
     (\<forall>c \<in> set (conversations db).
        participant_1_id c \<in> set (profiles db) \<and>
        participant_2_id c \<in> set (profiles db) \<and>
        (case listing_id c of None \<Rightarrow> True | Some l \<Rightarrow> l \<in> set (listings db)) \<and>
        (case request_id c of None \<Rightarrow> True | Some r \<Rightarrow> r \<in> set (requests db))) \<and>
     (\<forall>m \<in> set (messages db).
        conversation_id m \<in> set (map conv_id (conversations db)) \<and>
        sender_id m \<in> set (profiles db))"

text \<open>
  The rows of the tuple \<open>(user_id, other_user_id, listing_ref, request_ref)\<close>, an absent
  reference standing for a null column.
\<close>

definition tuple_rows ::
  "uuid \<Rightarrow> uuid \<Rightarrow> uuid option \<Rightarrow> uuid option \<Rightarrow> database \<Rightarrow> conversation list" where
  "tuple_rows userId otherUserId listingId requestId db =
     filter (\<lambda>c. participant_1_id c = userId \<and> participant_2_id c = otherUserId
                \<and> listing_id c = or_null listingId \<and> request_id c = or_null requestId)
       (conversations db)"

text \<open>
  The invariant of the specification on senders: the sender of every message is one of the
  two participants of the conversation the message belongs to.
\<close>

definition senders_are_participants :: "database \<Rightarrow> bool" where
  "senders_are_participants db \<longleftrightarrow>
     (\<forall>m \<in> set (messages db). \<exists>c \<in> set (conversations db).
        conv_id c = conversation_id m \<and>
        (sender_id m = participant_1_id c \<or> sender_id m = participant_2_id c))"

section \<open>Example data\<close>

text \<open>Three profiles, two listings, and ids for the rows of the examples.\<close>

definition alice :: uuid where "alice = ''a11ce000-0000-4000-8000-000000000001''"
definition bob :: uuid where "bob = ''b0b00000-0000-4000-8000-000000000002''"
definition carol :: uuid where "carol = ''ca401000-0000-4000-8000-000000000003''"
definition bike :: uuid where "bike = ''11111111-0000-4000-8000-00000000000a''"
definition lamp :: uuid where "lamp = ''22222222-0000-4000-8000-00000000000b''"
definition conv_a :: uuid where "conv_a = ''c0000000-0000-4000-8000-0000000000a1''"
definition conv_b :: uuid where "conv_b = ''c0000000-0000-4000-8000-0000000000b2''"
definition msg_1 :: uuid where "msg_1 = ''e0000000-0000-4000-8000-000000000001''"
definition msg_2 :: uuid where "msg_2 = ''e0000000-0000-4000-8000-000000000002''"
definition msg_3 :: uuid where "msg_3 = ''e0000000-0000-4000-8000-000000000003''"

text \<open>A signed-in session whose requests all reach the store.\<close>

definition session :: "uuid \<Rightarrow> uuid \<Rightarrow> timestamptz \<Rightarrow> env" where
  "session uid fresh t =
     \<lparr>auth_uid = Some uid, now = t, client_now = t, gen_random_uuid = fresh,
      fails = (\<lambda>_. False)\<rparr>"

definition conversation_row ::
  "uuid \<Rightarrow> uuid \<Rightarrow> uuid \<Rightarrow> uuid option \<Rightarrow> timestamptz \<Rightarrow> conversation" where
  "conversation_row i u v l t =
     \<lparr>conv_id = i, participant_1_id = u, participant_2_id = v, listing_id = l,
      request_id = None, last_message_at = t, conv_created_at = t\<rparr>"

definition message_row :: "uuid \<Rightarrow> uuid \<Rightarrow> uuid \<Rightarrow> string \<Rightarrow> timestamptz \<Rightarrow> message" where
  "message_row i c u txt t =
     \<lparr>msg_id = i, conversation_id = c, sender_id = u, content = txt, created_at = t,
      read_at = None\<rparr>"

definition store :: "conversation list \<Rightarrow> message list \<Rightarrow> database" where
  "store cs ms =
     \<lparr>profiles = [alice, bob, carol], listings = [bike, lamp], requests = [],
      conversations = cs, messages = ms\<rparr>"

text \<open>Two requests, and conversations that carry both a listing and a request.\<close>

definition req_1 :: uuid where "req_1 = ''33333333-0000-4000-8000-00000000000c''"
definition req_2 :: uuid where "req_2 = ''44444444-0000-4000-8000-00000000000d''"
definition conv_c :: uuid where "conv_c = ''c0000000-0000-4000-8000-0000000000c3''"

definition conversation_row_about ::
  "uuid \<Rightarrow> uuid \<Rightarrow> uuid \<Rightarrow> uuid \<Rightarrow> uuid \<Rightarrow> timestamptz \<Rightarrow> conversation" where
  "conversation_row_about i u v l r t =
     \<lparr>conv_id = i, participant_1_id = u, participant_2_id = v, listing_id = Some l,
      request_id = Some r, last_message_at = t, conv_created_at = t\<rparr>"

definition store_with_requests :: "conversation list \<Rightarrow> message list \<Rightarrow> database" where
  "store_with_requests cs ms =
     \<lparr>profiles = [alice, bob, carol], listings = [bike, lamp], requests = [req_1, req_2],
      conversations = cs, messages = ms\<rparr>"

definition screen :: "uuid \<Rightarrow> string \<Rightarrow> chat_screen" where
  "screen cid txt =
     \<lparr>route_id = Some cid, messages_state = [], messageText = txt, loading = False,
      sending = False\<rparr>"

section \<open>Basic facts about the policies and the lookup\<close>

declare conversation_policies.simps [simp del] message_policies.simps [simp del]

lemma permitted_conversation_select:
  "permitted (conversation_policies SELECT) auth c \<longleftrightarrow>
     (\<exists>uid. auth = Some uid \<and> (uid = participant_1_id c \<or> uid = participant_2_id c))"
  by (simp add: permitted_def users_can_view_own_conversations_def conversation_policies.simps
      split: option.splits)

lemma permitted_conversation_insert:
  "permitted (conversation_policies INSERT) auth c \<longleftrightarrow>
     (\<exists>uid. auth = Some uid \<and> (uid = participant_1_id c \<or> uid = participant_2_id c))"
  by (simp add: permitted_def users_can_create_conversations_def conversation_policies.simps
      split: option.splits)

lemma permitted_conversation_update: "\<not> permitted (conversation_policies UPDATE) auth c"
  by (simp add: permitted_def conversation_policies.simps split: option.splits)

lemma matches_lookup_query:
  "matches (lookup_query u v l r) c \<longleftrightarrow>
     participant_1_id c = u \<and> participant_2_id c = v \<and>
     (or_null l \<noteq> None \<longrightarrow> listing_id c = or_null l) \<and>
     (or_null r \<noteq> None \<longrightarrow> request_id c = or_null r)"
  by (auto simp: matches_def lookup_query_def eq_def eq_nullable_def or_null_def Let_def
      split: option.splits)

lemma maybeSingle_Some: "maybeSingle rows = Inr (Some r) \<longleftrightarrow> rows = [r]"
  by (auto simp: maybeSingle_def split: list.splits)

lemma maybeSingle_None: "maybeSingle rows = Inr None \<longleftrightarrow> rows = []"
  by (auto simp: maybeSingle_def split: list.splits)

lemma getOrCreateConversation_cases:
  assumes "getOrCreateConversation e u v l r db = Inr (i, db')"
  obtains (found) c where
      "filter (matches (lookup_query u v l r)) (visible_conversations (auth_uid e) db) = [c]"
      "i = conv_id c" "db' = db"
  | (created)
      "filter (matches (lookup_query u v l r)) (visible_conversations (auth_uid e) db) = []"
      "insert_conversation True (auth_uid e) (new_conversation e u v l r) db = Inr db'"
      "i = gen_random_uuid e"
proof -
  let ?rows = "filter (matches (lookup_query u v l r)) (visible_conversations (auth_uid e) db)"
  from assms have nf: "\<not> fails e 0"
    by (auto simp: getOrCreateConversation_def Let_def)
  show thesis
  proof (cases "maybeSingle ?rows")
    case (Inl err)
    with assms nf show thesis by (simp add: getOrCreateConversation_def Let_def)
  next
    case (Inr res)
    show thesis
    proof (cases res)
      case (Some c)
      with Inr have "?rows = [c]" by (simp add: maybeSingle_Some)
      moreover from assms nf Inr Some have "i = conv_id c" "db' = db"
        by (simp_all add: getOrCreateConversation_def Let_def)
      ultimately show thesis by (rule found)
    next
      case None
      with Inr have rows: "?rows = []" by (simp add: maybeSingle_None)
      from assms nf Inr None
      have "insert_conversation True (auth_uid e) (new_conversation e u v l r) db = Inr db'
            \<and> i = gen_random_uuid e"
        by (simp add: getOrCreateConversation_def Let_def new_conversation_def
            split: if_splits sum.splits)
      with rows show thesis using created by blast
    qed
  qed
qed

lemma insert_conversation_Inr:
  assumes "insert_conversation ret auth row db = Inr db'"
  shows "db' = db\<lparr>conversations := conversations db @ [row]\<rparr>"
    and "conv_id row \<notin> set (map conv_id (conversations db))"
    and "permitted (conversation_policies INSERT) auth row"
    and "ret \<Longrightarrow> permitted (conversation_policies SELECT) auth row"
    and "participant_1_id row \<in> set (profiles db)"
    and "participant_2_id row \<in> set (profiles db)"
    and "case listing_id row of None \<Rightarrow> True | Some l \<Rightarrow> l \<in> set (listings db)"
    and "case request_id row of None \<Rightarrow> True | Some r \<Rightarrow> r \<in> set (requests db)"
  using assms unfolding insert_conversation_def
  by (simp_all split: if_splits option.splits)

lemma new_conversation_simps:
  "conv_id (new_conversation e u v l r) = gen_random_uuid e"
  "participant_1_id (new_conversation e u v l r) = u"
  "participant_2_id (new_conversation e u v l r) = v"
  "listing_id (new_conversation e u v l r) = or_null l"
  "request_id (new_conversation e u v l r) = or_null r"
  "last_message_at (new_conversation e u v l r) = now e"
  "conv_created_at (new_conversation e u v l r) = now e"
  by (simp_all add: new_conversation_def)

lemma matches_new_conversation:
  "matches (lookup_query u v l r) (new_conversation e u v l r)"
  by (simp add: matches_lookup_query new_conversation_simps)

text \<open>A call that succeeds was made by one of the two users it names.\<close>

lemma getOrCreateConversation_caller:
  assumes "getOrCreateConversation e u v l r db = Inr (i, db')"
  shows "auth_uid e = Some u \<or> auth_uid e = Some v"
  using assms
proof (cases rule: getOrCreateConversation_cases)
  case (found c)
  then have "c \<in> set (filter (matches (lookup_query u v l r))
                     (visible_conversations (auth_uid e) db))" by simp
  then show ?thesis
    by (auto simp: visible_conversations_def permitted_conversation_select matches_lookup_query)
next
  case created
  from insert_conversation_Inr(3)[OF created(2)] show ?thesis
    by (auto simp: permitted_conversation_insert new_conversation_simps)
qed

text \<open>What the call returns is the id of a stored row that passes the lookup.\<close>

lemma getOrCreateConversation_row:
  assumes "getOrCreateConversation e u v l r db = Inr (i, db')"
  shows "\<exists>c \<in> set (conversations db'). conv_id c = i \<and> matches (lookup_query u v l r) c"
  using assms
proof (cases rule: getOrCreateConversation_cases)
  case (found c)
  then have "c \<in> set (filter (matches (lookup_query u v l r))
                     (visible_conversations (auth_uid e) db))" by simp
  then have "c \<in> set (conversations db)" "matches (lookup_query u v l r) c"
    by (simp_all add: visible_conversations_def)
  with found(2,3) show ?thesis by blast
next
  case created
  from insert_conversation_Inr(1)[OF created(2)] created(3) show ?thesis
    by (auto simp: matches_new_conversation new_conversation_simps)
qed

lemma getOrCreateConversation_mono:
  assumes "getOrCreateConversation e u v l r db = Inr (i, db')"
  shows "set (conversations db) \<subseteq> set (conversations db')"
  using assms
proof (cases rule: getOrCreateConversation_cases)
  case (found c)
  then show ?thesis by simp
next
  case created
  from insert_conversation_Inr(1)[OF created(2)] show ?thesis by auto
qed

lemma getOrCreateConversation_constraints:
  assumes "getOrCreateConversation e u v l r db = Inr (i, db')" and "constraints db"
  shows "constraints db'"
  using assms(1)
proof (cases rule: getOrCreateConversation_cases)
  case (found c)
  with assms(2) show ?thesis by simp
next
  case created
  note ins = insert_conversation_Inr[OF created(2)]
  from assms(2) ins(2,5,6,7,8) show ?thesis
    unfolding ins(1) constraints_def by (auto split: option.splits)
qed

lemma lookup_rows_visible:
  assumes "auth = Some u \<or> auth = Some v"
  shows "filter (matches (lookup_query u v l r)) (visible_conversations auth db)
       = filter (matches (lookup_query u v l r)) (conversations db)"
proof -
  have "\<And>c. matches (lookup_query u v l r) c \<Longrightarrow> permitted (conversation_policies SELECT) auth c"
    using assms by (auto simp: matches_lookup_query permitted_conversation_select)
  then show ?thesis
    unfolding visible_conversations_def filter_filter
    by (intro filter_cong refl) blast
qed

text \<open>After a call that succeeds, the caller's lookup sees exactly the row returned.\<close>

lemma getOrCreateConversation_lookup_after:
  assumes "getOrCreateConversation e u v l r db = Inr (i, db')"
  shows "\<exists>c. filter (matches (lookup_query u v l r)) (visible_conversations (auth_uid e) db') = [c]
             \<and> conv_id c = i"
  using assms
proof (cases rule: getOrCreateConversation_cases)
  case (found c)
  then show ?thesis by simp
next
  case created
  note ins = insert_conversation_Inr[OF created(2)]
  let ?row = "new_conversation e u v l r"
  have "permitted (conversation_policies SELECT) (auth_uid e) ?row"
    using ins(4) by simp
  then have "filter (matches (lookup_query u v l r)) (visible_conversations (auth_uid e) db')
             = [?row]"
    using created(1) unfolding ins(1) visible_conversations_def
    by (simp add: matches_new_conversation)
  with created(3) show ?thesis by (simp add: new_conversation_simps)
qed

lemma getOrCreateConversation_found:
  assumes "filter (matches (lookup_query u v l r)) (visible_conversations (auth_uid e) db) = [c]"
      and "\<not> fails e 0"
  shows "getOrCreateConversation e u v l r db = Inr (conv_id c, db)"
  using assms by (simp add: getOrCreateConversation_def Let_def maybeSingle_def)

lemma tuple_rows_lookup:
  assumes "or_null l \<noteq> None \<and> or_null r \<noteq> None \<or>
           (or_null l \<noteq> None \<or> or_null r \<noteq> None) \<and>
           (\<forall>c \<in> set (conversations db). listing_id c = None \<or> request_id c = None)"
  shows "tuple_rows u v l r db = filter (matches (lookup_query u v l r)) (conversations db)"
  unfolding tuple_rows_def
  using assms by (intro filter_cong refl) (auto simp: matches_lookup_query)

lemma unique_conv_id:
  assumes "distinct (map conv_id cs)" "c \<in> set cs" "c' \<in> set cs" "conv_id c = conv_id c'"
  shows "c = c'"
  using assms by (auto simp: distinct_map dest: inj_onD)

lemma insert_conversation_ok:
  assumes "permitted (conversation_policies INSERT) auth row"
      and "permitted (conversation_policies SELECT) auth row"
      and "conv_id row \<notin> set (map conv_id (conversations db))"
      and "participant_1_id row \<in> set (profiles db)"
      and "participant_2_id row \<in> set (profiles db)"
      and "case listing_id row of None \<Rightarrow> True | Some l \<Rightarrow> l \<in> set (listings db)"
      and "case request_id row of None \<Rightarrow> True | Some r \<Rightarrow> r \<in> set (requests db)"
  shows "insert_conversation ret auth row db = Inr (db\<lparr>conversations := conversations db @ [row]\<rparr>)"
  using assms unfolding insert_conversation_def by (simp split: option.splits)

lemma getOrCreateConversation_creates:
  assumes "filter (matches (lookup_query u v l r)) (visible_conversations (auth_uid e) db) = []"
      and "\<not> fails e 0" and "\<not> fails e 1"
      and "insert_conversation True (auth_uid e) (new_conversation e u v l r) db = Inr db'"
  shows "getOrCreateConversation e u v l r db = Inr (gen_random_uuid e, db')"
  using assms
  by (simp add: getOrCreateConversation_def Let_def maybeSingle_def new_conversation_simps)

lemma getOrCreateConversation_first_contact:
  assumes "filter (matches (lookup_query u v l r)) (conversations db) = []"
      and "auth_uid e = Some u \<or> auth_uid e = Some v"
      and "\<not> fails e 0" and "\<not> fails e 1"
      and "gen_random_uuid e \<notin> set (map conv_id (conversations db))"
      and "u \<in> set (profiles db)" and "v \<in> set (profiles db)"
      and "case or_null l of None \<Rightarrow> True | Some x \<Rightarrow> x \<in> set (listings db)"
      and "case or_null r of None \<Rightarrow> True | Some x \<Rightarrow> x \<in> set (requests db)"
  shows "getOrCreateConversation e u v l r db =
           Inr (gen_random_uuid e,
                db\<lparr>conversations := conversations db @ [new_conversation e u v l r]\<rparr>)"
proof -
  have none: "filter (matches (lookup_query u v l r)) (visible_conversations (auth_uid e) db) = []"
    using assms(1,2) by (simp add: lookup_rows_visible)
  have perm: "permitted (conversation_policies INSERT) (auth_uid e) (new_conversation e u v l r)"
    "permitted (conversation_policies SELECT) (auth_uid e) (new_conversation e u v l r)"
    using assms(2)
    by (auto simp: permitted_conversation_insert permitted_conversation_select
        new_conversation_simps)
  have "insert_conversation True (auth_uid e) (new_conversation e u v l r) db
        = Inr (db\<lparr>conversations := conversations db @ [new_conversation e u v l r]\<rparr>)"
    by (rule insert_conversation_ok) (use perm assms in \<open>simp_all add: new_conversation_simps\<close>)
  from getOrCreateConversation_creates[OF none assms(3,4) this] show ?thesis .
qed

lemmas example_simps =
  session_def conversation_row_def message_row_def store_def
  getOrCreateConversation_def lookup_query_def new_conversation_def insert_conversation_def
  visible_conversations_def permitted_def conversation_policies.simps
  users_can_view_own_conversations_def users_can_create_conversations_def
  matches_def eq_def eq_nullable_def maybeSingle_def or_null_def tuple_rows_def Let_def
  truthy_def alice_def bob_def carol_def bike_def lamp_def conv_a_def conv_b_def
  msg_1_def msg_2_def msg_3_def

lemmas example_request_simps =
  req_1_def req_2_def conv_c_def conversation_row_about_def store_with_requests_def

lemma example_create_bike_chat:
  "getOrCreateConversation (session alice conv_a 10) alice bob (Some bike) None (store [] [])
   = Inr (conv_a, store [conversation_row conv_a alice bob (Some bike) 10] [])"
  by (simp add: example_simps)

lemma example_constraints: "constraints (store [] [])"
  by (simp add: constraints_def store_def)

section \<open>The conversation resolver\<close>

subsection \<open>C1: resolving twice\<close>

text \<open>
  C1, as the specification states it: for any tuple \<open>(user_id, other_user_id, listing_ref,
  request_ref)\<close>, two calls in sequence return the same id, and afterwards exactly one row
  exists for the tuple. The code does not do this when a reference is absent: an absent
  reference adds no filter to the lookup, so the call can return a row of another tuple.
  Here the store holds one conversation of Alice and Bob about a listing; Alice resolves
  the pair with no reference, twice. Both calls return that conversation, and no row exists
  for the tuple with both references null.
\<close>

theorem getOrCreateConversation_twice_counterexample:
  "getOrCreateConversation (session alice conv_b 20) alice bob None None
      (store [conversation_row conv_a alice bob (Some bike) 10] [])
    = Inr (conv_a, store [conversation_row conv_a alice bob (Some bike) 10] [])
  \<and> getOrCreateConversation (session alice conv_b 21) alice bob None None
      (store [conversation_row conv_a alice bob (Some bike) 10] [])
    = Inr (conv_a, store [conversation_row conv_a alice bob (Some bike) 10] [])
  \<and> length (tuple_rows alice bob None None
      (store [conversation_row conv_a alice bob (Some bike) 10] [])) \<noteq> 1"
  by (simp add: example_simps)

text \<open>
  C1, amended: whenever a first call returns an id, a second call in sequence by the same
  caller (whose lookup request reaches the store) returns the same id and leaves the store
  as it is, and exactly one stored row passes the lookup of the call, that is, has the two
  participants in the given order and each reference that was given. That row is the one
  row of the tuple when both references are given, and also when one is given and no stored
  row carries both a listing and a request.
\<close>

theorem getOrCreateConversation_twice:
  assumes "getOrCreateConversation e u v l r db = Inr (i, db1)"
      and "auth_uid e' = auth_uid e" and "\<not> fails e' 0"
  shows "getOrCreateConversation e' u v l r db1 = Inr (i, db1)
       \<and> length (filter (matches (lookup_query u v l r)) (conversations db1)) = 1
       \<and> (or_null l \<noteq> None \<and> or_null r \<noteq> None \<or>
           (or_null l \<noteq> None \<or> or_null r \<noteq> None) \<and>
           (\<forall>c \<in> set (conversations db1). listing_id c = None \<or> request_id c = None)
          \<longrightarrow> length (tuple_rows u v l r db1) = 1)"
proof -
  from getOrCreateConversation_lookup_after[OF assms(1)] obtain c where
    c: "filter (matches (lookup_query u v l r)) (visible_conversations (auth_uid e) db1) = [c]"
       "conv_id c = i" by blast
  from c(1) assms(2) have
    "filter (matches (lookup_query u v l r)) (visible_conversations (auth_uid e') db1) = [c]"
    by simp
  from getOrCreateConversation_found[OF this assms(3)] c(2)
  have again: "getOrCreateConversation e' u v l r db1 = Inr (i, db1)" by simp
  from getOrCreateConversation_caller[OF assms(1)]
  have "filter (matches (lookup_query u v l r)) (conversations db1) = [c]"
    using c(1) by (simp add: lookup_rows_visible)
  then have one: "length (filter (matches (lookup_query u v l r)) (conversations db1)) = 1"
    by simp
  from again one show ?thesis by (simp add: tuple_rows_lookup)
qed

theorem getOrCreateConversation_twice_witness:
  "getOrCreateConversation (session alice conv_a 10) alice bob (Some bike) None (store [] [])
     = Inr (conv_a, store [conversation_row conv_a alice bob (Some bike) 10] [])
   \<and> getOrCreateConversation (session alice conv_b 20) alice bob (Some bike) None
       (store [conversation_row conv_a alice bob (Some bike) 10] [])
     = Inr (conv_a, store [conversation_row conv_a alice bob (Some bike) 10] [])
   \<and> length (tuple_rows alice bob (Some bike) None
       (store [conversation_row conv_a alice bob (Some bike) 10] [])) = 1"
proof -
  have same: "auth_uid (session alice conv_b 20) = auth_uid (session alice conv_a 10)"
    and reached: "\<not> fails (session alice conv_b 20) 0"
    by (simp_all add: session_def)
  from getOrCreateConversation_twice[OF example_create_bike_chat same reached]
    example_create_bike_chat
  show ?thesis
    by (simp add: or_null_def truthy_def bike_def store_def conversation_row_def)
qed

subsection \<open>C3: what the lookup matches\<close>

text \<open>
  C3, as the specification states it: the lookup matches a stored conversation only if its
  \<open>listing_ref\<close> is the given one, or null when none is given (and the same for
  \<open>request_ref\<close>), so that a call with both references absent never returns a conversation
  with a reference. In the code the filter on a reference is added only under
  \<open>if (listingId)\<close>, \<open>if (requestId)\<close>: with both absent, the lookup passes the
  conversation about the listing, and the call returns it.
\<close>

theorem lookup_absent_refs_counterexample:
  "matches (lookup_query alice bob None None) (conversation_row conv_a alice bob (Some bike) 10)
   \<and> listing_id (conversation_row conv_a alice bob (Some bike) 10) = Some bike
   \<and> getOrCreateConversation (session alice conv_b 20) alice bob None None
        (store [conversation_row conv_a alice bob (Some bike) 10] [])
      = Inr (conv_id (conversation_row conv_a alice bob (Some bike) 10),
             store [conversation_row conv_a alice bob (Some bike) 10] [])"
  by (simp add: example_simps)

text \<open>
  C3, amended: the lookup matches a stored conversation exactly when \<open>participant_1_id\<close> is
  \<open>user_id\<close>, \<open>participant_2_id\<close> is \<open>other_user_id\<close>, and each reference that is given
  (a non-empty string) equals the row's; a reference that is not given is not compared.
  Every id that the call returns is the id of a stored row that passes this lookup.
\<close>

theorem lookup_matches_given_refs:
  "(matches (lookup_query u v l r) c \<longleftrightarrow>
      participant_1_id c = u \<and> participant_2_id c = v \<and>
      (\<forall>x. l = Some x \<and> truthy x \<longrightarrow> listing_id c = Some x) \<and>
      (\<forall>x. r = Some x \<and> truthy x \<longrightarrow> request_id c = Some x))
   \<and> (getOrCreateConversation e u v l r db = Inr (i, db') \<longrightarrow>
        (\<exists>c' \<in> set (conversations db'). conv_id c' = i \<and> matches (lookup_query u v l r) c'))"
proof -
  have "matches (lookup_query u v l r) c \<longleftrightarrow>
      participant_1_id c = u \<and> participant_2_id c = v \<and>
      (\<forall>x. l = Some x \<and> truthy x \<longrightarrow> listing_id c = Some x) \<and>
      (\<forall>x. r = Some x \<and> truthy x \<longrightarrow> request_id c = Some x)"
    by (auto simp: matches_lookup_query or_null_def split: option.splits if_splits)
  then show ?thesis using getOrCreateConversation_row by blast
qed

theorem lookup_matches_given_refs_witness:
  "getOrCreateConversation (session alice conv_a 10) alice bob (Some bike) None (store [] [])
     = Inr (conv_a, store [conversation_row conv_a alice bob (Some bike) 10] [])
   \<and> (\<exists>c' \<in> set (conversations (store [conversation_row conv_a alice bob (Some bike) 10] [])).
         conv_id c' = conv_a \<and> participant_1_id c' = alice \<and> participant_2_id c' = bob
         \<and> listing_id c' = Some bike)"
proof -
  have "truthy bike" by (simp add: truthy_def bike_def)
  with lookup_matches_given_refs[of alice bob "Some bike" None _
      "session alice conv_a 10" "store [] []" conv_a
      "store [conversation_row conv_a alice bob (Some bike) 10] []"]
    example_create_bike_chat
  show ?thesis by auto
qed

subsection \<open>C4: the order of the pair\<close>

text \<open>
  C4: the resolver is not symmetric in its pair. The lookup passes only rows that hold the
  two users in the order given, so for two different users, a call for \<open>(a, b)\<close> followed by
  a call for \<open>(b, a)\<close> with the same references never returns the same id: whenever both
  succeed, the ids are those of two different rows. The witness is a store in which they do.
\<close>

theorem getOrCreateConversation_directional:
  assumes "constraints db" and "a \<noteq> b"
      and "getOrCreateConversation e1 a b l r db = Inr (i1, db1)"
      and "getOrCreateConversation e2 b a l r db1 = Inr (i2, db2)"
  shows "i1 \<noteq> i2
       \<and> (\<forall>c. participant_1_id c = b \<and> participant_2_id c = a
              \<longrightarrow> \<not> matches (lookup_query a b l r) c)"
proof -
  have swapped: "\<forall>c. participant_1_id c = b \<and> participant_2_id c = a
              \<longrightarrow> \<not> matches (lookup_query a b l r) c"
    using assms(2) by (auto simp: matches_lookup_query)
  have "i1 \<noteq> i2"
  proof
  assume eq: "i1 = i2"
  from getOrCreateConversation_row[OF assms(3)] obtain c1 where
    c1: "c1 \<in> set (conversations db1)" "conv_id c1 = i1" "participant_1_id c1 = a"
    by (auto simp: matches_lookup_query)
  from getOrCreateConversation_row[OF assms(4)] obtain c2 where
    c2: "c2 \<in> set (conversations db2)" "conv_id c2 = i2" "participant_1_id c2 = b"
    by (auto simp: matches_lookup_query)
  from getOrCreateConversation_mono[OF assms(4)] c1(1)
  have c1': "c1 \<in> set (conversations db2)" by blast
  have "constraints db2"
    by (rule getOrCreateConversation_constraints[OF assms(4)
          getOrCreateConversation_constraints[OF assms(3) assms(1)]])
  then have "distinct (map conv_id (conversations db2))" by (simp add: constraints_def)
  from unique_conv_id[OF this c1' c2(1)] c1(2) c2(2) eq have "c1 = c2" by simp
  with c1(3) c2(3) assms(2) show False by simp
  qed
  with swapped show ?thesis by simp
qed

theorem getOrCreateConversation_directional_witness:
  "getOrCreateConversation (session alice conv_a 10) alice bob (Some bike) None (store [] [])
     = Inr (conv_a, store [conversation_row conv_a alice bob (Some bike) 10] [])
   \<and> getOrCreateConversation (session bob conv_b 20) bob alice (Some bike) None
       (store [conversation_row conv_a alice bob (Some bike) 10] [])
     = Inr (conv_b, store [conversation_row conv_a alice bob (Some bike) 10,
                           conversation_row conv_b bob alice (Some bike) 20] [])
   \<and> conv_a \<noteq> conv_b"
proof -
  have second:
    "getOrCreateConversation (session bob conv_b 20) bob alice (Some bike) None
       (store [conversation_row conv_a alice bob (Some bike) 10] [])
     = Inr (conv_b, store [conversation_row conv_a alice bob (Some bike) 10,
                           conversation_row conv_b bob alice (Some bike) 20] [])"
    by (simp add: example_simps)
  have "alice \<noteq> bob" by (simp add: alice_def bob_def)
  from getOrCreateConversation_directional[OF example_constraints this
      example_create_bike_chat second]
    example_create_bike_chat second
  show ?thesis by simp
qed

subsection \<open>C8: one conversation per listing\<close>

text \<open>
  C8, as the specification states it: from a store with no conversation for either tuple,
  resolving \<open>(a, b, l1, null)\<close> and \<open>(a, b, l2, null)\<close> for two different listings produces
  two distinct conversations. The lookup for \<open>(a, b, l1, null)\<close> does not compare the
  request, so it also passes rows about \<open>l1\<close> that carry a request; with two of them
  \<open>maybeSingle\<close> fails. Here Alice resolves her pair with Bob about the bike and each of two
  requests, which makes two rows; the store then holds no row for \<open>(alice, bob, bike, null)\<close>
  nor for \<open>(alice, bob, lamp, null)\<close>, and her call for \<open>(alice, bob, bike, null)\<close> fails.
\<close>

theorem getOrCreateConversation_per_listing_counterexample:
  "getOrCreateConversation (session alice conv_a 10) alice bob (Some bike) (Some req_1)
      (store_with_requests [] [])
    = Inr (conv_a, store_with_requests [conversation_row_about conv_a alice bob bike req_1 10] [])
   \<and> getOrCreateConversation (session alice conv_b 20) alice bob (Some bike) (Some req_2)
      (store_with_requests [conversation_row_about conv_a alice bob bike req_1 10] [])
    = Inr (conv_b, store_with_requests [conversation_row_about conv_a alice bob bike req_1 10,
                                        conversation_row_about conv_b alice bob bike req_2 20] [])
   \<and> tuple_rows alice bob (Some bike) None
        (store_with_requests [conversation_row_about conv_a alice bob bike req_1 10,
                              conversation_row_about conv_b alice bob bike req_2 20] []) = []
   \<and> tuple_rows alice bob (Some lamp) None
        (store_with_requests [conversation_row_about conv_a alice bob bike req_1 10,
                              conversation_row_about conv_b alice bob bike req_2 20] []) = []
   \<and> bike \<noteq> lamp
   \<and> getOrCreateConversation (session alice conv_c 30) alice bob (Some bike) None
        (store_with_requests [conversation_row_about conv_a alice bob bike req_1 10,
                              conversation_row_about conv_b alice bob bike req_2 20] [])
      = Inl MultipleRows"
  by (simp add: example_simps example_request_simps)

text \<open>
  C8, amended: for two different listings \<open>l1\<close> and \<open>l2\<close> (non-empty references),
  whenever the calls for \<open>(a, b, l1, null)\<close> and then \<open>(a, b, l2, null)\<close> both return,
  the ids differ and are those of two stored rows, one about each listing. And from a store
  in which no conversation of \<open>a\<close> and \<open>b\<close> in this order is about \<open>l1\<close> or \<open>l2\<close>, whatever
  its request, when the caller is one of the two users, the requests reach the store, the
  referenced profiles and listings exist and the generated ids are new, both calls do
  return, each having inserted its row.
\<close>

theorem getOrCreateConversation_per_listing:
  assumes "constraints db" and "l1 \<noteq> l2" and "truthy l1" and "truthy l2"
  shows "(getOrCreateConversation e1 a b (Some l1) None db = Inr (i1, db1) \<and>
          getOrCreateConversation e2 a b (Some l2) None db1 = Inr (i2, db2)
          \<longrightarrow> i1 \<noteq> i2 \<and>
              (\<exists>c1 \<in> set (conversations db2). \<exists>c2 \<in> set (conversations db2).
                  conv_id c1 = i1 \<and> listing_id c1 = Some l1 \<and>
                  conv_id c2 = i2 \<and> listing_id c2 = Some l2))
       \<and> ((\<forall>c \<in> set (conversations db).
              participant_1_id c = a \<and> participant_2_id c = b
              \<longrightarrow> listing_id c \<noteq> Some l1 \<and> listing_id c \<noteq> Some l2) \<and>
          (auth_uid e1 = Some a \<or> auth_uid e1 = Some b) \<and>
          (auth_uid e2 = Some a \<or> auth_uid e2 = Some b) \<and>
          (\<forall>k. \<not> fails e1 k) \<and> (\<forall>k. \<not> fails e2 k) \<and>
          a \<in> set (profiles db) \<and> b \<in> set (profiles db) \<and>
          l1 \<in> set (listings db) \<and> l2 \<in> set (listings db) \<and>
          gen_random_uuid e1 \<notin> set (map conv_id (conversations db)) \<and>
          gen_random_uuid e2 \<notin> set (map conv_id (conversations db)) \<and>
          gen_random_uuid e1 \<noteq> gen_random_uuid e2
          \<longrightarrow> getOrCreateConversation e1 a b (Some l1) None db =
                Inr (gen_random_uuid e1,
                     db\<lparr>conversations := conversations db @
                        [new_conversation e1 a b (Some l1) None]\<rparr>) \<and>
              getOrCreateConversation e2 a b (Some l2) None
                  (db\<lparr>conversations := conversations db @
                        [new_conversation e1 a b (Some l1) None]\<rparr>) =
                Inr (gen_random_uuid e2,
                     db\<lparr>conversations := conversations db @
                        [new_conversation e1 a b (Some l1) None,
                         new_conversation e2 a b (Some l2) None]\<rparr>))"
proof (intro conjI impI)
  assume calls: "getOrCreateConversation e1 a b (Some l1) None db = Inr (i1, db1) \<and>
          getOrCreateConversation e2 a b (Some l2) None db1 = Inr (i2, db2)"
  have given: "or_null (Some l1) = Some l1" "or_null (Some l2) = Some l2"
    using assms(3,4) by (simp_all add: or_null_def)
  from calls getOrCreateConversation_row[of e1 a b "Some l1" None db i1 db1] obtain c1 where
    c1: "c1 \<in> set (conversations db1)" "conv_id c1 = i1" "listing_id c1 = Some l1"
    by (auto simp: matches_lookup_query given)
  from calls getOrCreateConversation_row[of e2 a b "Some l2" None db1 i2 db2] obtain c2 where
    c2: "c2 \<in> set (conversations db2)" "conv_id c2 = i2" "listing_id c2 = Some l2"
    by (auto simp: matches_lookup_query given)
  from calls getOrCreateConversation_mono[of e2 a b "Some l2" None db1 i2 db2] c1(1)
  have c1': "c1 \<in> set (conversations db2)" by blast
  from calls assms(1) have "constraints db2"
    by (blast intro: getOrCreateConversation_constraints)
  then have d: "distinct (map conv_id (conversations db2))" by (simp add: constraints_def)
  show "i1 \<noteq> i2"
  proof
    assume "i1 = i2"
    with unique_conv_id[OF d c1' c2(1)] c1(2) c2(2) have "c1 = c2" by simp
    with c1(3) c2(3) assms(2) show False by simp
  qed
  from c1' c1(2,3) c2 show "\<exists>c1 \<in> set (conversations db2). \<exists>c2 \<in> set (conversations db2).
                  conv_id c1 = i1 \<and> listing_id c1 = Some l1 \<and>
                  conv_id c2 = i2 \<and> listing_id c2 = Some l2" by blast
next
  assume h: "(\<forall>c \<in> set (conversations db).
              participant_1_id c = a \<and> participant_2_id c = b
              \<longrightarrow> listing_id c \<noteq> Some l1 \<and> listing_id c \<noteq> Some l2) \<and>
          (auth_uid e1 = Some a \<or> auth_uid e1 = Some b) \<and>
          (auth_uid e2 = Some a \<or> auth_uid e2 = Some b) \<and>
          (\<forall>k. \<not> fails e1 k) \<and> (\<forall>k. \<not> fails e2 k) \<and>
          a \<in> set (profiles db) \<and> b \<in> set (profiles db) \<and>
          l1 \<in> set (listings db) \<and> l2 \<in> set (listings db) \<and>
          gen_random_uuid e1 \<notin> set (map conv_id (conversations db)) \<and>
          gen_random_uuid e2 \<notin> set (map conv_id (conversations db)) \<and>
          gen_random_uuid e1 \<noteq> gen_random_uuid e2"
  have given: "or_null (Some l1) = Some l1" "or_null (Some l2) = Some l2"
    using assms(3,4) by (simp_all add: or_null_def)
  have absent: "or_null None = None" by (simp add: or_null_def)
  have fresh: "gen_random_uuid e2 \<noteq> gen_random_uuid e1" using h by auto
  let ?row1 = "new_conversation e1 a b (Some l1) None"
  let ?db1 = "db\<lparr>conversations := conversations db @ [?row1]\<rparr>"
  have none1: "filter (matches (lookup_query a b (Some l1) None)) (conversations db) = []"
    and none2: "filter (matches (lookup_query a b (Some l2) None)) (conversations db) = []"
    using h by (auto simp: filter_empty_conv matches_lookup_query given)
  show first: "getOrCreateConversation e1 a b (Some l1) None db = Inr (gen_random_uuid e1, ?db1)"
    by (rule getOrCreateConversation_first_contact)
      (use h none1 given absent in \<open>simp_all\<close>)
  have none2': "filter (matches (lookup_query a b (Some l2) None)) (conversations ?db1) = []"
    using none2 assms(2) by (simp add: matches_lookup_query new_conversation_simps given)
  have "getOrCreateConversation e2 a b (Some l2) None ?db1 =
        Inr (gen_random_uuid e2,
             ?db1\<lparr>conversations := conversations ?db1 @ [new_conversation e2 a b (Some l2) None]\<rparr>)"
    by (rule getOrCreateConversation_first_contact)
      (use h none2' given absent fresh in \<open>simp_all add: new_conversation_simps\<close>)
  then show "getOrCreateConversation e2 a b (Some l2) None ?db1 =
        Inr (gen_random_uuid e2,
             db\<lparr>conversations := conversations db @
                        [?row1, new_conversation e2 a b (Some l2) None]\<rparr>)"
    by simp
qed

theorem getOrCreateConversation_per_listing_witness:
  "constraints (store [] []) \<and> bike \<noteq> lamp
   \<and> getOrCreateConversation (session alice conv_a 10) alice bob (Some bike) None (store [] [])
     = Inr (conv_a, store [conversation_row conv_a alice bob (Some bike) 10] [])
   \<and> getOrCreateConversation (session alice conv_b 20) alice bob (Some lamp) None
       (store [conversation_row conv_a alice bob (Some bike) 10] [])
     = Inr (conv_b, store [conversation_row conv_a alice bob (Some bike) 10,
                           conversation_row conv_b alice bob (Some lamp) 20] [])
   \<and> conv_a \<noteq> conv_b"
proof -
  have second:
    "getOrCreateConversation (session alice conv_b 20) alice bob (Some lamp) None
       (store [conversation_row conv_a alice bob (Some bike) 10] [])
     = Inr (conv_b, store [conversation_row conv_a alice bob (Some bike) 10,
                           conversation_row conv_b alice bob (Some lamp) 20] [])"
    by (simp add: example_simps)
  have refs: "bike \<noteq> lamp" "truthy bike" "truthy lamp"
    by (simp_all add: bike_def lamp_def truthy_def)
  from getOrCreateConversation_per_listing[OF example_constraints refs,
      of "session alice conv_a 10" alice bob conv_a
         "store [conversation_row conv_a alice bob (Some bike) 10] []"
         "session alice conv_b 20" conv_b
         "store [conversation_row conv_a alice bob (Some bike) 10,
                 conversation_row conv_b alice bob (Some lamp) 20] []"]
    example_create_bike_chat second example_constraints refs
  show ?thesis by simp
qed

section \<open>Basic facts about the message policies\<close>

lemma permitted_message_select:
  "permitted (message_policies (visible_conversations auth db) SELECT) auth m \<longleftrightarrow>
     (\<exists>uid. auth = Some uid \<and>
        (\<exists>c \<in> set (conversations db). conv_id c = conversation_id m \<and>
           (participant_1_id c = uid \<or> participant_2_id c = uid)))"
  by (auto simp: permitted_def message_policies.simps visible_conversations_def
      conversation_policies.simps conversation_participants_can_view_messages_def
      users_can_view_own_conversations_def split: option.splits)

lemma permitted_message_insert:
  "permitted (message_policies convs INSERT) auth m \<longleftrightarrow> auth = Some (sender_id m)"
  by (auto simp: permitted_def message_policies.simps
      authenticated_users_can_send_messages_def split: option.splits)

lemma permitted_message_update:
  "permitted (message_policies (visible_conversations auth db) UPDATE) auth m \<longleftrightarrow>
     (\<exists>uid. auth = Some uid \<and>
        (\<exists>c \<in> set (conversations db). conv_id c = conversation_id m \<and>
           participant_2_id c = uid))"
  by (auto simp: permitted_def message_policies.simps visible_conversations_def
      conversation_policies.simps recipients_can_update_read_at_timestamp_def
      users_can_view_own_conversations_def split: option.splits)

text \<open>With unique conversation ids, the policies speak about the one owning conversation.\<close>

lemma message_select_owner:
  assumes "distinct (map conv_id (conversations db))" "c \<in> set (conversations db)"
      and "conversation_id m = conv_id c"
  shows "permitted (message_policies (visible_conversations auth db) SELECT) auth m \<longleftrightarrow>
         auth = Some (participant_1_id c) \<or> auth = Some (participant_2_id c)"
proof -
  have "\<And>c'. c' \<in> set (conversations db) \<Longrightarrow> conv_id c' = conversation_id m \<Longrightarrow> c' = c"
    using assms by (metis unique_conv_id)
  with assms(2,3) show ?thesis unfolding permitted_message_select by auto
qed

lemma message_update_owner:
  assumes "distinct (map conv_id (conversations db))" "c \<in> set (conversations db)"
      and "conversation_id m = conv_id c"
  shows "permitted (message_policies (visible_conversations auth db) UPDATE) auth m \<longleftrightarrow>
         auth = Some (participant_2_id c)"
proof -
  have "\<And>c'. c' \<in> set (conversations db) \<Longrightarrow> conv_id c' = conversation_id m \<Longrightarrow> c' = c"
    using assms by (metis unique_conv_id)
  with assms(2,3) show ?thesis unfolding permitted_message_update by auto
qed

lemma matches_eq: "matches (eq column v []) r \<longleftrightarrow> column r = v"
  by (simp add: matches_def eq_def)

lemma update_conversations_noop:
  "update_conversations auth flt patch db = Inr db"
  by (simp add: update_conversations_def permitted_conversation_update)

lemma unique_msg_id:
  assumes "distinct (map msg_id ms)" "m \<in> set ms" "m' \<in> set ms" "msg_id m = msg_id m'"
  shows "m = m'"
  using assms by (auto simp: distinct_map dest: inj_onD)

lemma database_messages_same: "db\<lparr>messages := messages db\<rparr> = db"
  by simp

lemma map_if_id: "(\<And>x. x \<in> set xs \<Longrightarrow> \<not> P x) \<Longrightarrow> map (\<lambda>x. if P x then g x else x) xs = xs"
  by (induction xs) auto

lemma map_if_single:
  "(\<And>x. x \<in> set xs \<Longrightarrow> P x \<longleftrightarrow> x = m) \<Longrightarrow>
   map (\<lambda>x. if P x then g x else x) xs = map (\<lambda>x. if x = m then g m else x) xs"
  by (induction xs) auto

lemma filter_map_if:
  "(\<And>x. x \<in> set xs \<Longrightarrow> P x \<Longrightarrow> \<not> Q x \<and> \<not> Q (g x)) \<Longrightarrow>
   filter Q (map (\<lambda>x. if P x then g x else x) xs) = filter Q xs"
  by (induction xs) auto

text \<open>
  The second participant of a conversation can change any of its messages: here by a patch
  that keeps the message's id and conversation and names an existing profile as sender.
\<close>

lemma update_messages_by_participant_2:
  assumes "constraints db" "c \<in> set (conversations db)" "m \<in> set (messages db)"
      and "conversation_id m = conv_id c"
      and "msg_id (patch m) = msg_id m" "conversation_id (patch m) = conversation_id m"
      and "sender_id (patch m) \<in> set (profiles db)"
  shows "update_messages (Some (participant_2_id c)) (matches (eq msg_id (msg_id m) [])) patch db
       = Inr (db\<lparr>messages := map (\<lambda>x. if x = m then patch m else x) (messages db)\<rparr>)"
proof -
  let ?auth = "Some (participant_2_id c)"
  let ?convs = "visible_conversations ?auth db"
  let ?target = "\<lambda>x. matches (eq msg_id (msg_id m) []) x
                     \<and> permitted (message_policies ?convs SELECT) ?auth x
                     \<and> permitted (message_policies ?convs UPDATE) ?auth x"
  from assms(1) have dc: "distinct (map conv_id (conversations db))"
    and dm: "distinct (map msg_id (messages db))" by (simp_all add: constraints_def)
  have pm: "permitted (message_policies ?convs SELECT) ?auth m"
           "permitted (message_policies ?convs UPDATE) ?auth m"
    using message_select_owner[OF dc assms(2,4)] message_update_owner[OF dc assms(2,4)]
    by simp_all
  have pp: "permitted (message_policies ?convs SELECT) ?auth (patch m)"
           "permitted (message_policies ?convs UPDATE) ?auth (patch m)"
    using message_select_owner[OF dc assms(2), of "patch m"]
      message_update_owner[OF dc assms(2), of "patch m"] assms(4,6)
    by simp_all
  have target: "\<And>x. x \<in> set (messages db) \<Longrightarrow> ?target x \<longleftrightarrow> x = m"
    using pm unique_msg_id[OF dm _ assms(3)] by (auto simp: matches_eq)
  have rows: "map (\<lambda>x. if ?target x then patch x else x) (messages db)
            = map (\<lambda>x. if x = m then patch m else x) (messages db)"
    using map_if_single[of "messages db" ?target m patch] target by blast
  have ids: "map msg_id (map (\<lambda>x. if x = m then patch m else x) (messages db))
           = map msg_id (messages db)"
    using assms(5) by (induction "messages db") auto
  have fk: "conversation_id (patch m) \<in> set (map conv_id (conversations db))"
    using assms(2,4,6) by simp
  have no_rls: "\<not> (\<exists>x \<in> set (messages db). ?target x \<and>
              \<not> (permitted (message_policies ?convs UPDATE) ?auth (patch x)
                 \<and> permitted (message_policies ?convs SELECT) ?auth (patch x)))"
    using target pp by blast
  have no_fk: "\<not> (\<exists>x \<in> set (messages db). ?target x \<and>
                  (conversation_id (patch x) \<notin> set (map conv_id (conversations db))
                 \<or> sender_id (patch x) \<notin> set (profiles db)))"
    using target fk assms(7) by blast
  show ?thesis
    unfolding update_messages_def Let_def
    by (simp only: if_not_P[OF no_rls] if_not_P[OF no_fk] rows ids) (simp add: dm)
qed

text \<open>
  The same for a patch that changes the id of the message to one not in use, or moves the
  message to another conversation of which the caller is the second participant.
\<close>

lemma distinct_map_replace:
  assumes "distinct (map f xs)" and "f g = f m \<or> f g \<notin> f ` set xs"
  shows "distinct (map f (map (\<lambda>x. if x = m then g else x) xs))"
  using assms
proof (induction xs)
  case Nil
  then show ?case by simp
next
  case (Cons x xs)
  from Cons.prems have fx: "f x \<notin> f ` set xs" and d: "distinct (map f xs)" by auto
  show ?case
  proof (cases "x = m")
    case True
    with fx have "m \<notin> set xs" by auto
    then have same: "map (\<lambda>x. if x = m then g else x) xs = xs" by (induction xs) auto
    from Cons.prems(2) True fx have "f g \<notin> f ` set xs" by auto
    with True d same show ?thesis by simp
  next
    case False
    from Cons.prems(2) have g: "f g = f m \<or> f g \<notin> f ` set xs" by auto
    have "\<forall>y \<in> set xs. f x \<noteq> f (if y = m then g else y)"
    proof
      fix y assume y: "y \<in> set xs"
      show "f x \<noteq> f (if y = m then g else y)"
      proof (cases "y = m")
        case True
        with y have "m \<in> set xs" by simp
        with Cons.prems(2) fx True show ?thesis by auto
      next
        case False
        with y fx show ?thesis by auto
      qed
    qed
    with False Cons.IH[OF d g] show ?thesis by (auto simp: o_def)
  qed
qed

lemma update_messages_by_participant_2_any:
  assumes "constraints db" "c \<in> set (conversations db)" "m \<in> set (messages db)"
      and "conversation_id m = conv_id c"
      and "c' \<in> set (conversations db)" "conv_id c' = conversation_id (patch m)"
          "participant_2_id c' = participant_2_id c"
      and "msg_id (patch m) = msg_id m \<or> msg_id (patch m) \<notin> set (map msg_id (messages db))"
      and "sender_id (patch m) \<in> set (profiles db)"
  shows "update_messages (Some (participant_2_id c)) (matches (eq msg_id (msg_id m) [])) patch db
       = Inr (db\<lparr>messages := map (\<lambda>x. if x = m then patch m else x) (messages db)\<rparr>)"
proof -
  let ?auth = "Some (participant_2_id c)"
  let ?convs = "visible_conversations ?auth db"
  let ?target = "\<lambda>x. matches (eq msg_id (msg_id m) []) x
                     \<and> permitted (message_policies ?convs SELECT) ?auth x
                     \<and> permitted (message_policies ?convs UPDATE) ?auth x"
  from assms(1) have dc: "distinct (map conv_id (conversations db))"
    and dm: "distinct (map msg_id (messages db))" by (simp_all add: constraints_def)
  have pm: "permitted (message_policies ?convs SELECT) ?auth m"
           "permitted (message_policies ?convs UPDATE) ?auth m"
    using message_select_owner[OF dc assms(2,4)] message_update_owner[OF dc assms(2,4)]
    by simp_all
  have pp: "permitted (message_policies ?convs SELECT) ?auth (patch m)"
           "permitted (message_policies ?convs UPDATE) ?auth (patch m)"
    using message_select_owner[OF dc assms(5), of "patch m" ?auth]
      message_update_owner[OF dc assms(5), of "patch m" ?auth] assms(6,7)
    by simp_all
  have target: "\<And>x. x \<in> set (messages db) \<Longrightarrow> ?target x \<longleftrightarrow> x = m"
    using pm unique_msg_id[OF dm _ assms(3)] by (auto simp: matches_eq)
  have rows: "map (\<lambda>x. if ?target x then patch x else x) (messages db)
            = map (\<lambda>x. if x = m then patch m else x) (messages db)"
    using map_if_single[of "messages db" ?target m patch] target by blast
  have dnew: "distinct (map msg_id (map (\<lambda>x. if x = m then patch m else x) (messages db)))"
    using assms(8) by (intro distinct_map_replace[OF dm]) auto
  have fk: "conversation_id (patch m) \<in> set (map conv_id (conversations db))"
    using assms(5,6) by force
  have no_rls: "\<not> (\<exists>x \<in> set (messages db). ?target x \<and>
              \<not> (permitted (message_policies ?convs UPDATE) ?auth (patch x)
                 \<and> permitted (message_policies ?convs SELECT) ?auth (patch x)))"
    using target pp by blast
  have no_fk: "\<not> (\<exists>x \<in> set (messages db). ?target x \<and>
                  (conversation_id (patch x) \<notin> set (map conv_id (conversations db))
                 \<or> sender_id (patch x) \<notin> set (profiles db)))"
    using target fk assms(9) by blast
  have no_uq: "\<not> (\<exists>x \<in> set (messages db). ?target x \<and>
       \<not> distinct (map msg_id (map (\<lambda>x. if x = m then patch m else x) (messages db))))"
    using dnew by blast
  show ?thesis
    unfolding update_messages_def Let_def
    by (simp only: if_not_P[OF no_rls] if_not_P[OF no_fk] rows if_not_P[OF no_uq])
qed

text \<open>
  The check on the new row: the second participant cannot move a message into a
  conversation of which it is not the second participant.
\<close>

lemma update_messages_moved_rejected:
  assumes "constraints db" "c \<in> set (conversations db)" "m \<in> set (messages db)"
      and "conversation_id m = conv_id c"
      and "\<not> (\<exists>c' \<in> set (conversations db). conv_id c' = conversation_id (patch m) \<and>
                participant_2_id c' = participant_2_id c)"
  shows "update_messages (Some (participant_2_id c)) (matches (eq msg_id (msg_id m) [])) patch db
       = Inl RlsViolation"
proof -
  let ?auth = "Some (participant_2_id c)"
  let ?convs = "visible_conversations ?auth db"
  let ?target = "\<lambda>x. matches (eq msg_id (msg_id m) []) x
                     \<and> permitted (message_policies ?convs SELECT) ?auth x
                     \<and> permitted (message_policies ?convs UPDATE) ?auth x"
  from assms(1) have dc: "distinct (map conv_id (conversations db))"
    by (simp add: constraints_def)
  have "?target m"
    using message_select_owner[OF dc assms(2,4)] message_update_owner[OF dc assms(2,4)]
    by (simp add: matches_eq)
  moreover have "\<not> permitted (message_policies ?convs UPDATE) ?auth (patch m)"
    using assms(5) unfolding permitted_message_update by auto
  ultimately have rls: "\<exists>x \<in> set (messages db). ?target x \<and>
              \<not> (permitted (message_policies ?convs UPDATE) ?auth (patch x)
                 \<and> permitted (message_policies ?convs SELECT) ?auth (patch x))"
    using assms(3) by blast
  show ?thesis
    unfolding update_messages_def Let_def by (simp only: if_P[OF rls])
qed

lemmas example_update_simps =
  update_messages_def visible_conversations_def permitted_def
  conversation_policies.simps message_policies.simps
  users_can_view_own_conversations_def conversation_participants_can_view_messages_def
  recipients_can_update_read_at_timestamp_def matches_def eq_def Let_def

text \<open>
  Nobody else can: whatever the filter and the patch, an update by a caller who is not the
  second participant of a conversation leaves the messages of that conversation as they are.
\<close>

lemma update_messages_by_other:
  assumes "constraints db" "c \<in> set (conversations db)"
      and "auth \<noteq> Some (participant_2_id c)"
      and "update_messages auth flt patch db = Inr db'"
  shows "filter (\<lambda>x. conversation_id x = conv_id c) (messages db')
       = filter (\<lambda>x. conversation_id x = conv_id c) (messages db)"
proof -
  let ?convs = "visible_conversations auth db"
  let ?target = "\<lambda>x. flt x \<and> permitted (message_policies ?convs SELECT) auth x
                     \<and> permitted (message_policies ?convs UPDATE) auth x"
  from assms(1) have dc: "distinct (map conv_id (conversations db))"
    by (simp add: constraints_def)
  have denied: "\<And>x. conversation_id x = conv_id c \<Longrightarrow>
                  \<not> permitted (message_policies ?convs UPDATE) auth x"
    using message_update_owner[OF dc assms(2)] assms(3) by simp
  from assms(4) have db': "db' = db\<lparr>messages := map (\<lambda>x. if ?target x then patch x else x)
                                      (messages db)\<rparr>"
    and checked: "\<And>x. x \<in> set (messages db) \<Longrightarrow> ?target x \<Longrightarrow>
                    permitted (message_policies ?convs UPDATE) auth (patch x)"
    unfolding update_messages_def Let_def by (auto split: if_splits)
  have "\<And>x. x \<in> set (messages db) \<Longrightarrow> ?target x \<Longrightarrow>
          conversation_id x \<noteq> conv_id c \<and> conversation_id (patch x) \<noteq> conv_id c"
    using denied checked by blast
  then have "filter (\<lambda>x. conversation_id x = conv_id c)
               (map (\<lambda>x. if ?target x then patch x else x) (messages db))
           = filter (\<lambda>x. conversation_id x = conv_id c) (messages db)"
    by (intro filter_map_if) blast
  then show ?thesis unfolding db' by simp
qed

lemma update_messages_denied:
  assumes "constraints db" "c \<in> set (conversations db)" "m \<in> set (messages db)"
      and "conversation_id m = conv_id c"
      and "auth \<noteq> Some (participant_2_id c)"
  shows "update_messages auth (matches (eq msg_id (msg_id m) [])) patch db = Inr db"
proof -
  let ?convs = "visible_conversations auth db"
  let ?target = "\<lambda>x. matches (eq msg_id (msg_id m) []) x
                     \<and> permitted (message_policies ?convs SELECT) auth x
                     \<and> permitted (message_policies ?convs UPDATE) auth x"
  from assms(1) have dc: "distinct (map conv_id (conversations db))"
    and dm: "distinct (map msg_id (messages db))" by (simp_all add: constraints_def)
  have "\<not> permitted (message_policies ?convs UPDATE) auth m"
    using message_update_owner[OF dc assms(2,4)] assms(5) by simp
  then have target: "\<And>x. x \<in> set (messages db) \<Longrightarrow> \<not> ?target x"
    using unique_msg_id[OF dm _ assms(3)] by (auto simp: matches_eq)
  then have rows: "map (\<lambda>x. if ?target x then patch x else x) (messages db) = messages db"
    by (intro map_if_id) blast
  have none: "\<And>Q. \<not> (\<exists>x \<in> set (messages db). ?target x \<and> Q x)"
    using target by blast
  show ?thesis
    unfolding update_messages_def Let_def
    by (simp only: if_not_P[OF none] rows database_messages_same)
qed

lemmas example_message_simps =
  session_def conversation_row_def message_row_def store_def constraints_def
  truthy_def alice_def bob_def carol_def bike_def lamp_def conv_a_def conv_b_def
  msg_1_def msg_2_def msg_3_def

lemma example_chat_constraints:
  "constraints (store [conversation_row conv_a alice bob (Some bike) 10]
     [message_row msg_1 conv_a alice ''is it still there?'' 30,
      message_row msg_2 conv_a bob ''yes'' 31])"
  by (simp add: example_message_simps)

lemma order_descending_Nil: "order_descending f [] = []"
  by (simp add: order_descending_def)

lemma visible_messages_of_conversation:
  assumes "distinct (map conv_id (conversations db))" "c \<in> set (conversations db)"
  shows "filter (matches (eq conversation_id (conv_id c) [])) (visible_messages auth db)
       = (if auth = Some (participant_1_id c) \<or> auth = Some (participant_2_id c)
          then filter (\<lambda>m. conversation_id m = conv_id c) (messages db) else [])"
proof -
  have "filter (matches (eq conversation_id (conv_id c) [])) (visible_messages auth db)
      = filter (\<lambda>m. (auth = Some (participant_1_id c) \<or> auth = Some (participant_2_id c))
                    \<and> conversation_id m = conv_id c) (messages db)"
    unfolding visible_messages_def filter_filter
    using message_select_owner[OF assms]
    by (intro filter_cong refl) (auto simp: matches_eq)
  then show ?thesis by simp
qed

section \<open>The message policies\<close>

subsection \<open>C5: who can mark a message read\<close>

text \<open>
  C5: in a conversation with \<open>participant_1_id = u1\<close> and \<open>participant_2_id = u2\<close> (two
  different users), the update policy admits a caller for a message of the conversation if
  and only if the caller is \<open>u2\<close>. Marking the message read, that is, the update of the
  message that sets \<open>read_at\<close>, changes nothing when \<open>u1\<close> or anyone but \<open>u2\<close> asks for
  it, whoever sent the message; asked for by \<open>u2\<close> it sets \<open>read_at\<close>.
\<close>

theorem read_at_update_participant_2_only:
  assumes "constraints db" "c \<in> set (conversations db)" "m \<in> set (messages db)"
      and "conversation_id m = conv_id c"
      and "participant_1_id c = u1" "participant_2_id c = u2" "u1 \<noteq> u2"
  shows "(\<forall>uid. permitted (message_policies (visible_conversations (Some uid) db) UPDATE)
                  (Some uid) m \<longleftrightarrow> uid = u2)
       \<and> update_messages (Some u1) (matches (eq msg_id (msg_id m) []))
           (\<lambda>x. x\<lparr>read_at := Some t\<rparr>) db = Inr db
       \<and> (\<forall>uid. uid \<noteq> u2 \<longrightarrow>
             update_messages (Some uid) (matches (eq msg_id (msg_id m) []))
               (\<lambda>x. x\<lparr>read_at := Some t\<rparr>) db = Inr db)
       \<and> update_messages (Some u2) (matches (eq msg_id (msg_id m) []))
           (\<lambda>x. x\<lparr>read_at := Some t\<rparr>) db =
           Inr (db\<lparr>messages := map (\<lambda>x. if x = m then m\<lparr>read_at := Some t\<rparr> else x)
                                  (messages db)\<rparr>)"
proof -
  from assms(1) have dc: "distinct (map conv_id (conversations db))"
    by (simp add: constraints_def)
  have policy: "\<forall>uid. permitted (message_policies (visible_conversations (Some uid) db) UPDATE)
                  (Some uid) m \<longleftrightarrow> uid = u2"
    using message_update_owner[OF dc assms(2,4)] assms(6) by simp
  have others: "\<forall>uid. uid \<noteq> u2 \<longrightarrow>
             update_messages (Some uid) (matches (eq msg_id (msg_id m) []))
               (\<lambda>x. x\<lparr>read_at := Some t\<rparr>) db = Inr db"
    using update_messages_denied[OF assms(1-4)] assms(6) by simp
  have sender: "sender_id m \<in> set (profiles db)"
    using assms(1,3) by (simp add: constraints_def)
  have "update_messages (Some u2) (matches (eq msg_id (msg_id m) []))
           (\<lambda>x. x\<lparr>read_at := Some t\<rparr>) db =
           Inr (db\<lparr>messages := map (\<lambda>x. if x = m then m\<lparr>read_at := Some t\<rparr> else x)
                                  (messages db)\<rparr>)"
    using update_messages_by_participant_2[OF assms(1-4),
        of "\<lambda>x. x\<lparr>read_at := Some t\<rparr>"] sender assms(6)
    by simp
  with policy others assms(7) show ?thesis by simp
qed

theorem read_at_update_participant_2_only_witness:
  "update_messages (Some alice) (matches (eq msg_id msg_2 [])) (\<lambda>x. x\<lparr>read_at := Some 40\<rparr>)
     (store [conversation_row conv_a alice bob (Some bike) 10]
        [message_row msg_1 conv_a alice ''is it still there?'' 30,
         message_row msg_2 conv_a bob ''yes'' 31])
   = Inr (store [conversation_row conv_a alice bob (Some bike) 10]
        [message_row msg_1 conv_a alice ''is it still there?'' 30,
         message_row msg_2 conv_a bob ''yes'' 31])
   \<and> update_messages (Some bob) (matches (eq msg_id msg_1 [])) (\<lambda>x. x\<lparr>read_at := Some 40\<rparr>)
     (store [conversation_row conv_a alice bob (Some bike) 10]
        [message_row msg_1 conv_a alice ''is it still there?'' 30,
         message_row msg_2 conv_a bob ''yes'' 31])
   = Inr (store [conversation_row conv_a alice bob (Some bike) 10]
        [(message_row msg_1 conv_a alice ''is it still there?'' 30)\<lparr>read_at := Some 40\<rparr>,
         message_row msg_2 conv_a bob ''yes'' 31])"
proof -
  let ?c = "conversation_row conv_a alice bob (Some bike) 10"
  let ?m1 = "message_row msg_1 conv_a alice ''is it still there?'' 30"
  let ?m2 = "message_row msg_2 conv_a bob ''yes'' 31"
  have c: "?c \<in> set (conversations (store [?c] [?m1, ?m2]))"
    and m1: "?m1 \<in> set (messages (store [?c] [?m1, ?m2]))" "conversation_id ?m1 = conv_id ?c"
    and m2: "?m2 \<in> set (messages (store [?c] [?m1, ?m2]))" "conversation_id ?m2 = conv_id ?c"
    and pair: "participant_1_id ?c = alice" "participant_2_id ?c = bob" "alice \<noteq> bob"
    by (simp_all add: example_message_simps)
  have ids: "msg_id ?m1 = msg_1" "msg_id ?m2 = msg_2" "?m1 \<noteq> ?m2" "?m2 \<noteq> ?m1"
    by (simp_all add: example_message_simps)
  from read_at_update_participant_2_only[OF example_chat_constraints c m2 pair, of 40]
       read_at_update_participant_2_only[OF example_chat_constraints c m1 pair, of 40]
  show ?thesis
    by (simp add: ids store_def)
qed

subsection \<open>C10: what the update policy leaves open\<close>

text \<open>
  C10, as stated: the update policy restricts neither the target message nor the columns
  changed, so that \<open>participant_2_id\<close> of a conversation may update any field of a message
  of it. The policy has a \<open>WITH CHECK\<close> that repeats its condition on the row after the
  update, and so it does restrict one column, \<open>conversation_id\<close>. Here Bob, second
  participant of the first conversation, moves a message of it to a conversation whose
  second participant is Alice: the update is rejected by the policy.
\<close>

theorem message_update_moved_counterexample:
  "participant_2_id (conversation_row conv_a alice bob (Some bike) 10) = bob
   \<and> update_messages (Some bob) (matches (eq msg_id msg_1 []))
        (\<lambda>m. m\<lparr>conversation_id := conv_b\<rparr>)
        (store [conversation_row conv_a alice bob (Some bike) 10,
                conversation_row conv_b bob alice (Some bike) 20]
           [message_row msg_1 conv_a alice ''is it still there?'' 30])
      = Inl RlsViolation"
  by (simp add: example_update_simps example_message_simps)

text \<open>
  C10, amended: the update policy looks at one thing only, whether the caller is
  \<open>participant_2_id\<close> of the conversation of the message, before the update and after it.
  For a message of a conversation it admits exactly that caller, whoever sent the message.
  That caller's update of the message goes through whatever it changes (the content,
  \<open>read_at\<close>, the sender, the id, a message it sent itself) as long as the conversation the
  changed row names, the old one or another, has the caller as \<open>participant_2_id\<close>; the
  keys ask that a new id is not in use and that the sender is an existing profile. An update
  that moves the message to a conversation without the caller as \<open>participant_2_id\<close> is
  rejected as a row-level security violation. An update by any other caller changes no
  message of the conversation.
\<close>

theorem message_update_policy:
  assumes "constraints db" "c \<in> set (conversations db)" "m \<in> set (messages db)"
      and "conversation_id m = conv_id c"
  shows "(permitted (message_policies (visible_conversations auth db) UPDATE) auth m
            \<longleftrightarrow> auth = Some (participant_2_id c))
       \<and> ((\<exists>c' \<in> set (conversations db). conv_id c' = conversation_id (patch m) \<and>
                participant_2_id c' = participant_2_id c) \<and>
          (msg_id (patch m) = msg_id m \<or> msg_id (patch m) \<notin> set (map msg_id (messages db))) \<and>
          sender_id (patch m) \<in> set (profiles db)
          \<longrightarrow> update_messages (Some (participant_2_id c)) (matches (eq msg_id (msg_id m) []))
                patch db
              = Inr (db\<lparr>messages := map (\<lambda>x. if x = m then patch m else x) (messages db)\<rparr>))
       \<and> (\<not> (\<exists>c' \<in> set (conversations db). conv_id c' = conversation_id (patch m) \<and>
                participant_2_id c' = participant_2_id c)
          \<longrightarrow> update_messages (Some (participant_2_id c)) (matches (eq msg_id (msg_id m) []))
                patch db
              = Inl RlsViolation)
       \<and> (auth \<noteq> Some (participant_2_id c)
          \<longrightarrow> update_messages auth (matches (eq msg_id (msg_id m) [])) patch db = Inr db)
       \<and> (auth \<noteq> Some (participant_2_id c) \<and> update_messages auth flt patch db = Inr db'
          \<longrightarrow> filter (\<lambda>x. conversation_id x = conv_id c) (messages db')
              = filter (\<lambda>x. conversation_id x = conv_id c) (messages db))"
proof (intro conjI impI)
  from assms(1) have dc: "distinct (map conv_id (conversations db))"
    by (simp add: constraints_def)
  show "permitted (message_policies (visible_conversations auth db) UPDATE) auth m
            \<longleftrightarrow> auth = Some (participant_2_id c)"
    by (rule message_update_owner[OF dc assms(2,4)])
next
  assume pre: "(\<exists>c' \<in> set (conversations db). conv_id c' = conversation_id (patch m) \<and>
                participant_2_id c' = participant_2_id c) \<and>
          (msg_id (patch m) = msg_id m \<or> msg_id (patch m) \<notin> set (map msg_id (messages db))) \<and>
          sender_id (patch m) \<in> set (profiles db)"
  then obtain c' where c': "c' \<in> set (conversations db)"
      "conv_id c' = conversation_id (patch m)" "participant_2_id c' = participant_2_id c"
    by blast
  from pre have keys:
    "msg_id (patch m) = msg_id m \<or> msg_id (patch m) \<notin> set (map msg_id (messages db))"
    "sender_id (patch m) \<in> set (profiles db)" by blast+
  show "update_messages (Some (participant_2_id c)) (matches (eq msg_id (msg_id m) []))
                patch db
              = Inr (db\<lparr>messages := map (\<lambda>x. if x = m then patch m else x) (messages db)\<rparr>)"
    by (rule update_messages_by_participant_2_any[where patch = patch, OF assms c' keys])
next
  assume "\<not> (\<exists>c' \<in> set (conversations db). conv_id c' = conversation_id (patch m) \<and>
                participant_2_id c' = participant_2_id c)"
  then show "update_messages (Some (participant_2_id c)) (matches (eq msg_id (msg_id m) []))
                patch db
              = Inl RlsViolation"
    by (rule update_messages_moved_rejected[where patch = patch, OF assms])
next
  assume "auth \<noteq> Some (participant_2_id c)"
  then show "update_messages auth (matches (eq msg_id (msg_id m) [])) patch db = Inr db"
    by (rule update_messages_denied[OF assms])
next
  assume "auth \<noteq> Some (participant_2_id c) \<and> update_messages auth flt patch db = Inr db'"
  then show "filter (\<lambda>x. conversation_id x = conv_id c) (messages db')
              = filter (\<lambda>x. conversation_id x = conv_id c) (messages db)"
    using update_messages_by_other[OF assms(1,2)] by blast
qed

theorem message_update_policy_witness:
  "update_messages (Some bob) (matches (eq msg_id msg_1 [])) (\<lambda>m. m\<lparr>content := ''sold''\<rparr>)
     (store [conversation_row conv_a alice bob (Some bike) 10]
        [message_row msg_1 conv_a alice ''is it still there?'' 30,
         message_row msg_2 conv_a bob ''yes'' 31])
   = Inr (store [conversation_row conv_a alice bob (Some bike) 10]
        [message_row msg_1 conv_a alice ''sold'' 30,
         message_row msg_2 conv_a bob ''yes'' 31])
   \<and> update_messages (Some bob) (matches (eq msg_id msg_2 [])) (\<lambda>m. m\<lparr>read_at := Some 40\<rparr>)
     (store [conversation_row conv_a alice bob (Some bike) 10]
        [message_row msg_1 conv_a alice ''is it still there?'' 30,
         message_row msg_2 conv_a bob ''yes'' 31])
   = Inr (store [conversation_row conv_a alice bob (Some bike) 10]
        [message_row msg_1 conv_a alice ''is it still there?'' 30,
         (message_row msg_2 conv_a bob ''yes'' 31)\<lparr>read_at := Some 40\<rparr>])
   \<and> update_messages (Some bob) (matches (eq msg_id msg_1 [])) (\<lambda>m. m\<lparr>msg_id := msg_3\<rparr>)
     (store [conversation_row conv_a alice bob (Some bike) 10]
        [message_row msg_1 conv_a alice ''is it still there?'' 30,
         message_row msg_2 conv_a bob ''yes'' 31])
   = Inr (store [conversation_row conv_a alice bob (Some bike) 10]
        [message_row msg_3 conv_a alice ''is it still there?'' 30,
         message_row msg_2 conv_a bob ''yes'' 31])
   \<and> update_messages (Some bob) (matches (eq msg_id msg_1 []))
        (\<lambda>m. m\<lparr>conversation_id := conv_b\<rparr>)
     (store [conversation_row conv_a alice bob (Some bike) 10]
        [message_row msg_1 conv_a alice ''is it still there?'' 30,
         message_row msg_2 conv_a bob ''yes'' 31])
   = Inl RlsViolation
   \<and> update_messages (Some alice) (matches (eq msg_id msg_2 [])) (\<lambda>m. m\<lparr>read_at := Some 40\<rparr>)
     (store [conversation_row conv_a alice bob (Some bike) 10]
        [message_row msg_1 conv_a alice ''is it still there?'' 30,
         message_row msg_2 conv_a bob ''yes'' 31])
   = Inr (store [conversation_row conv_a alice bob (Some bike) 10]
        [message_row msg_1 conv_a alice ''is it still there?'' 30,
         message_row msg_2 conv_a bob ''yes'' 31])"
proof -
  let ?c = "conversation_row conv_a alice bob (Some bike) 10"
  let ?m1 = "message_row msg_1 conv_a alice ''is it still there?'' 30"
  let ?m2 = "message_row msg_2 conv_a bob ''yes'' 31"
  let ?db = "store [?c] [?m1, ?m2]"
  have c: "?c \<in> set (conversations ?db)"
    and m1: "?m1 \<in> set (messages ?db)" "conversation_id ?m1 = conv_id ?c"
    and m2: "?m2 \<in> set (messages ?db)" "conversation_id ?m2 = conv_id ?c"
    by (simp_all add: example_message_simps)
  have facts: "msg_id ?m1 = msg_1" "msg_id ?m2 = msg_2" "?m1 \<noteq> ?m2" "?m2 \<noteq> ?m1"
    "participant_2_id ?c = bob" "Some alice \<noteq> Some bob"
    "sender_id ?m1 \<in> set (profiles ?db)" "sender_id ?m2 \<in> set (profiles ?db)"
    "?m1\<lparr>content := ''sold''\<rparr> = message_row msg_1 conv_a alice ''sold'' 30"
    "?m1\<lparr>msg_id := msg_3\<rparr> = message_row msg_3 conv_a alice ''is it still there?'' 30"
    by (simp_all add: example_message_simps)
  have pre1: "(\<exists>c' \<in> set (conversations ?db).
        conv_id c' = conversation_id (?m1\<lparr>content := ''sold''\<rparr>) \<and>
        participant_2_id c' = participant_2_id ?c) \<and>
      (msg_id (?m1\<lparr>content := ''sold''\<rparr>) = msg_id ?m1 \<or>
       msg_id (?m1\<lparr>content := ''sold''\<rparr>) \<notin> set (map msg_id (messages ?db))) \<and>
      sender_id (?m1\<lparr>content := ''sold''\<rparr>) \<in> set (profiles ?db)"
    and pre2: "(\<exists>c' \<in> set (conversations ?db).
        conv_id c' = conversation_id (?m2\<lparr>read_at := Some 40\<rparr>) \<and>
        participant_2_id c' = participant_2_id ?c) \<and>
      (msg_id (?m2\<lparr>read_at := Some 40\<rparr>) = msg_id ?m2 \<or>
       msg_id (?m2\<lparr>read_at := Some 40\<rparr>) \<notin> set (map msg_id (messages ?db))) \<and>
      sender_id (?m2\<lparr>read_at := Some 40\<rparr>) \<in> set (profiles ?db)"
    and pre3: "(\<exists>c' \<in> set (conversations ?db).
        conv_id c' = conversation_id (?m1\<lparr>msg_id := msg_3\<rparr>) \<and>
        participant_2_id c' = participant_2_id ?c) \<and>
      (msg_id (?m1\<lparr>msg_id := msg_3\<rparr>) = msg_id ?m1 \<or>
       msg_id (?m1\<lparr>msg_id := msg_3\<rparr>) \<notin> set (map msg_id (messages ?db))) \<and>
      sender_id (?m1\<lparr>msg_id := msg_3\<rparr>) \<in> set (profiles ?db)"
    and pre4: "\<not> (\<exists>c' \<in> set (conversations ?db).
        conv_id c' = conversation_id (?m1\<lparr>conversation_id := conv_b\<rparr>) \<and>
        participant_2_id c' = participant_2_id ?c)"
    and pre5: "Some alice \<noteq> Some (participant_2_id ?c)"
    by (simp_all add: example_message_simps)
  note rewrite = message_update_policy[OF example_chat_constraints c m1,
        of "Some bob" "\<lambda>m. m\<lparr>content := ''sold''\<rparr>", THEN conjunct2, THEN conjunct1,
        THEN mp, OF pre1, unfolded facts(1) facts(5)]
  note own = message_update_policy[OF example_chat_constraints c m2,
        of "Some bob" "\<lambda>m. m\<lparr>read_at := Some 40\<rparr>", THEN conjunct2, THEN conjunct1,
        THEN mp, OF pre2, unfolded facts(2) facts(5)]
  note renamed = message_update_policy[OF example_chat_constraints c m1,
        of "Some bob" "\<lambda>m. m\<lparr>msg_id := msg_3\<rparr>", THEN conjunct2, THEN conjunct1,
        THEN mp, OF pre3, unfolded facts(1) facts(5)]
  note moved = message_update_policy[OF example_chat_constraints c m1,
        of "Some bob" "\<lambda>m. m\<lparr>conversation_id := conv_b\<rparr>",
        THEN conjunct2, THEN conjunct2, THEN conjunct1,
        THEN mp, OF pre4, unfolded facts(1) facts(5)]
  note denied = message_update_policy[OF example_chat_constraints c m2,
        of "Some alice" "\<lambda>m. m\<lparr>read_at := Some 40\<rparr>",
        THEN conjunct2, THEN conjunct2, THEN conjunct2, THEN conjunct1,
        THEN mp, OF pre5, unfolded facts(2)]
  have rows: "messages ?db = [?m1, ?m2]" by (simp add: store_def)
  show ?thesis
    unfolding rewrite own renamed moved denied rows
    using facts(3,4,9,10) by (simp add: store_def)
qed

subsection \<open>C6: who can read a message\<close>

text \<open>
  C6: for a message and a signed-in caller, the select policy admits the caller if and
  only if the caller is \<open>participant_1_id\<close> or \<open>participant_2_id\<close> of the conversation
  the message belongs to; so the message is among the rows the caller can read exactly
  then, a caller who is not a participant fetches no message of the conversation, and a
  client that is not signed in reads none at all.
\<close>

theorem message_select_policy:
  assumes "constraints db" "c \<in> set (conversations db)" "m \<in> set (messages db)"
      and "conversation_id m = conv_id c"
  shows "(permitted (message_policies (visible_conversations (Some uid) db) SELECT) (Some uid) m
            \<longleftrightarrow> uid = participant_1_id c \<or> uid = participant_2_id c)
       \<and> (m \<in> set (visible_messages (Some uid) db)
            \<longleftrightarrow> uid = participant_1_id c \<or> uid = participant_2_id c)
       \<and> (uid \<noteq> participant_1_id c \<and> uid \<noteq> participant_2_id c \<and>
          auth_uid e = Some uid \<and> \<not> fails e 0
          \<longrightarrow> messages_state (snd (fetchMessages e (conv_id c) st db)) = [])
       \<and> visible_messages None db = []"
proof -
  from assms(1) have dc: "distinct (map conv_id (conversations db))"
    by (simp add: constraints_def)
  have policy: "permitted (message_policies (visible_conversations (Some uid) db) SELECT)
                  (Some uid) m \<longleftrightarrow> uid = participant_1_id c \<or> uid = participant_2_id c"
    using message_select_owner[OF dc assms(2,4), of "Some uid"] by auto
  then have seen: "m \<in> set (visible_messages (Some uid) db)
            \<longleftrightarrow> uid = participant_1_id c \<or> uid = participant_2_id c"
    using assms(3) by (simp add: visible_messages_def)
  have fetched: "uid \<noteq> participant_1_id c \<and> uid \<noteq> participant_2_id c \<and>
          auth_uid e = Some uid \<and> \<not> fails e 0
          \<longrightarrow> messages_state (snd (fetchMessages e (conv_id c) st db)) = []"
    by (simp add: fetchMessages_def Let_def visible_messages_of_conversation[OF dc assms(2)]
        order_descending_Nil)
  have anon: "visible_messages None db = []"
    by (simp add: visible_messages_def permitted_def)
  from policy seen fetched anon show ?thesis by blast
qed

theorem message_select_policy_witness:
  "message_row msg_1 conv_a alice ''is it still there?'' 30 \<in> set (visible_messages (Some bob)
      (store [conversation_row conv_a alice bob (Some bike) 10]
         [message_row msg_1 conv_a alice ''is it still there?'' 30,
          message_row msg_2 conv_a bob ''yes'' 31]))
   \<and> message_row msg_1 conv_a alice ''is it still there?'' 30 \<notin> set (visible_messages (Some carol)
      (store [conversation_row conv_a alice bob (Some bike) 10]
         [message_row msg_1 conv_a alice ''is it still there?'' 30,
          message_row msg_2 conv_a bob ''yes'' 31]))
   \<and> messages_state (snd (fetchMessages (session carol [] 50) conv_a (screen conv_a [])
      (store [conversation_row conv_a alice bob (Some bike) 10]
         [message_row msg_1 conv_a alice ''is it still there?'' 30,
          message_row msg_2 conv_a bob ''yes'' 31]))) = []"
proof -
  let ?c = "conversation_row conv_a alice bob (Some bike) 10"
  let ?m1 = "message_row msg_1 conv_a alice ''is it still there?'' 30"
  let ?m2 = "message_row msg_2 conv_a bob ''yes'' 31"
  let ?db = "store [?c] [?m1, ?m2]"
  have c: "?c \<in> set (conversations ?db)"
    and m1: "?m1 \<in> set (messages ?db)" "conversation_id ?m1 = conv_id ?c"
    by (simp_all add: example_message_simps)
  have facts: "conv_id ?c = conv_a" "bob = participant_2_id ?c"
    "carol \<noteq> participant_1_id ?c" "carol \<noteq> participant_2_id ?c"
    "auth_uid (session carol [] 50) = Some carol" "\<not> fails (session carol [] 50) 0"
    by (simp_all add: example_message_simps)
  from message_select_policy[OF example_chat_constraints c m1, of bob]
       message_select_policy[OF example_chat_constraints c m1, of carol
         "session carol [] 50" "screen conv_a []"]
  show ?thesis using facts by simp
qed

section \<open>Listing and sending messages\<close>

lemma order_descending_sorted:
  "sorted_wrt (\<lambda>x y. f x \<ge> f y) (order_descending f rows)"
  using sorted_sort_key[of f rows]
  by (simp add: order_descending_def sorted_wrt_rev sorted_map)

lemma order_descending_mset: "mset (order_descending f rows) = mset rows"
  by (simp add: order_descending_def)

lemma filter_single_of_mset:
  assumes "filter_mset P (mset rows) = {#k#}"
  shows "filter P rows = [k]"
proof -
  have "mset (filter P rows) = {#k#}" by (simp only: mset_filter assms)
  then show ?thesis by (simp only: mset_single_iff)
qed

lemma order_descending_three:
  assumes "mset rows = {#m1, m2, m3#}" "f m1 < f m2" "f m2 < f m3"
  shows "order_descending (f :: 'a \<Rightarrow> nat) rows = [m3, m2, m1]"
proof -
  have "sort_key f rows = [m1, m2, m3]"
  proof (rule properties_for_sort_key)
    show "mset [m1, m2, m3] = mset rows" using assms(1) by simp
    show "sorted (map f [m1, m2, m3])" using assms by simp
    show "\<And>k. k \<in> set [m1, m2, m3] \<Longrightarrow>
            filter (\<lambda>x. f k = f x) [m1, m2, m3] = filter (\<lambda>x. f k = f x) rows"
    proof -
      fix k assume "k \<in> set [m1, m2, m3]"
      then consider "k = m1" | "k = m2" | "k = m3" by auto
      then show "filter (\<lambda>x. f k = f x) [m1, m2, m3] = filter (\<lambda>x. f k = f x) rows"
      proof cases
        case 1
        have "filter (\<lambda>x. f k = f x) rows = [m1]"
          by (rule filter_single_of_mset) (use assms 1 in auto)
        with 1 assms show ?thesis by auto
      next
        case 2
        have "filter (\<lambda>x. f k = f x) rows = [m2]"
          by (rule filter_single_of_mset) (use assms 2 in auto)
        with 2 assms show ?thesis by auto
      next
        case 3
        have "filter (\<lambda>x. f k = f x) rows = [m3]"
          by (rule filter_single_of_mset) (use assms 3 in auto)
        with 3 assms show ?thesis by auto
      qed
    qed
  qed
  then show ?thesis by (simp add: order_descending_def)
qed

lemma example_abc_constraints:
  "constraints (store [conversation_row conv_a alice bob (Some bike) 10]
     [message_row msg_1 conv_a alice ''a'' 30,
      message_row msg_2 conv_a bob ''b'' 31,
      message_row msg_3 conv_a alice ''c'' 32])"
  by (simp add: example_message_simps)

subsection \<open>C7: newest first\<close>

text \<open>
  C7: for a participant of a conversation whose request reaches the store, \<open>fetchMessages\<close>
  shows all messages of the conversation, each as often as it is stored, sorted by
  \<open>created_at\<close> descending. In particular three messages created at \<open>t1 < t2 < t3\<close> are
  listed as \<open>[t3, t2, t1]\<close>.
\<close>

theorem fetchMessages_newest_first:
  assumes "constraints db" "c \<in> set (conversations db)"
      and "auth_uid e = Some (participant_1_id c) \<or> auth_uid e = Some (participant_2_id c)"
      and "\<not> fails e 0"
  shows "fst (fetchMessages e (conv_id c) st db) = None
       \<and> mset (messages_state (snd (fetchMessages e (conv_id c) st db)))
           = mset (filter (\<lambda>m. conversation_id m = conv_id c) (messages db))
       \<and> sorted_wrt (\<lambda>x y. created_at x \<ge> created_at y)
           (messages_state (snd (fetchMessages e (conv_id c) st db)))
       \<and> (mset (filter (\<lambda>m. conversation_id m = conv_id c) (messages db)) = {#m1, m2, m3#} \<and>
          created_at m1 < created_at m2 \<and> created_at m2 < created_at m3
          \<longrightarrow> messages_state (snd (fetchMessages e (conv_id c) st db)) = [m3, m2, m1])"
proof -
  from assms(1) have dc: "distinct (map conv_id (conversations db))"
    by (simp add: constraints_def)
  have fetched: "fetchMessages e (conv_id c) st db =
    (None, st\<lparr>messages_state := order_descending created_at
                  (filter (\<lambda>m. conversation_id m = conv_id c) (messages db)),
               loading := False\<rparr>)"
    using assms(3,4)
    by (simp add: fetchMessages_def Let_def visible_messages_of_conversation[OF dc assms(2)])
  show ?thesis
    unfolding fetched
    by (simp add: order_descending_mset order_descending_sorted order_descending_three)
qed

theorem fetchMessages_newest_first_witness:
  "messages_state (snd (fetchMessages (session bob [] 50) conv_a (screen conv_a [])
     (store [conversation_row conv_a alice bob (Some bike) 10]
        [message_row msg_1 conv_a alice ''a'' 30,
         message_row msg_2 conv_a bob ''b'' 31,
         message_row msg_3 conv_a alice ''c'' 32])))
   = [message_row msg_3 conv_a alice ''c'' 32,
      message_row msg_2 conv_a bob ''b'' 31,
      message_row msg_1 conv_a alice ''a'' 30]"
proof -
  let ?c = "conversation_row conv_a alice bob (Some bike) 10"
  let ?m1 = "message_row msg_1 conv_a alice ''a'' 30"
  let ?m2 = "message_row msg_2 conv_a bob ''b'' 31"
  let ?m3 = "message_row msg_3 conv_a alice ''c'' 32"
  let ?db = "store [?c] [?m1, ?m2, ?m3]"
  have c: "?c \<in> set (conversations ?db)"
    and caller: "auth_uid (session bob [] 50) = Some (participant_1_id ?c)
               \<or> auth_uid (session bob [] 50) = Some (participant_2_id ?c)"
    and reached: "\<not> fails (session bob [] 50) 0"
    by (simp_all add: example_message_simps)
  have three: "mset (filter (\<lambda>m. conversation_id m = conv_id ?c) (messages ?db))
                 = {#?m1, ?m2, ?m3#} \<and>
               created_at ?m1 < created_at ?m2 \<and> created_at ?m2 < created_at ?m3"
    by (simp add: example_message_simps)
  have cid: "conv_id ?c = conv_a" by (simp add: conversation_row_def)
  from fetchMessages_newest_first[OF example_abc_constraints c caller reached,
      of "screen conv_a []" ?m1 ?m2 ?m3,
      THEN conjunct2, THEN conjunct2, THEN conjunct2, THEN mp, OF three]
  show ?thesis unfolding cid .
qed

subsection \<open>Sending\<close>

lemma insert_message_Inr:
  assumes "insert_message ret auth row db = Inr db'"
  shows "db' = db\<lparr>messages := messages db @ [row]\<rparr>"
    and "auth = Some (sender_id row)"
    and "ret \<Longrightarrow> permitted (message_policies (visible_conversations auth db) SELECT) auth row"
    and "msg_id row \<notin> set (map msg_id (messages db))"
    and "conversation_id row \<in> set (map conv_id (conversations db))"
    and "sender_id row \<in> set (profiles db)"
  using assms unfolding insert_message_def Let_def permitted_message_insert
  by (simp_all split: if_splits)

lemma insert_message_wrong_sender:
  "auth \<noteq> Some (sender_id row) \<Longrightarrow> insert_message ret auth row db = Inl RlsViolation"
  unfolding insert_message_def Let_def permitted_message_insert by simp

lemma insert_message_returning_non_participant:
  assumes "distinct (map conv_id (conversations db))" "c \<in> set (conversations db)"
      and "conversation_id row = conv_id c"
      and "auth \<noteq> Some (participant_1_id c)" "auth \<noteq> Some (participant_2_id c)"
  shows "insert_message True auth row db = Inl RlsViolation"
  unfolding insert_message_def Let_def
  using message_select_owner[OF assms(1-3), of auth] assms(4,5) by simp

lemma new_message_simps:
  "msg_id (new_message e cid uid txt) = gen_random_uuid e"
  "conversation_id (new_message e cid uid txt) = cid"
  "sender_id (new_message e cid uid txt) = uid"
  "content (new_message e cid uid txt) = txt"
  "created_at (new_message e cid uid txt) = now e"
  "read_at (new_message e cid uid txt) = None"
  by (simp_all add: new_message_def)

lemma insert_single_message_non_participant:
  assumes "distinct (map conv_id (conversations db))" "c \<in> set (conversations db)"
      and "auth_uid e \<noteq> Some (participant_1_id c)" "auth_uid e \<noteq> Some (participant_2_id c)"
  shows "insert_single_message e (conv_id c) txt db
       = Inl (if fails e 0 then Transport else RlsViolation)"
proof -
  have "\<And>uid. auth_uid e = Some uid \<Longrightarrow>
          insert_message True (Some uid) (new_message e (conv_id c) uid txt) db
          = Inl RlsViolation"
    using assms(3,4)
    by (intro insert_message_returning_non_participant[OF assms(1,2)])
       (simp_all add: new_message_simps)
  then show ?thesis
    by (simp add: insert_single_message_def split: option.splits)
qed

text \<open>
  What an insert of \<open>handleSendMessage\<close> that succeeds has done: one row more, with the
  caller as sender, no \<open>read_at\<close>, the store's time as \<open>created_at\<close>; and the caller could
  read the row back.
\<close>

lemma insert_single_message_Inr:
  assumes "insert_single_message e cid txt db = Inr (data, db1)"
  shows "\<exists>uid. auth_uid e = Some uid \<and> data = new_message e cid uid txt
           \<and> db1 = db\<lparr>messages := messages db @ [data]\<rparr>
           \<and> permitted (message_policies (visible_conversations (auth_uid e) db) SELECT)
                (auth_uid e) data"
proof -
  from assms obtain uid where uid: "auth_uid e = Some uid"
    by (auto simp: insert_single_message_def split: if_splits option.splits)
  with assms have ins: "insert_message True (Some uid) (new_message e cid uid txt) db = Inr db1"
    and data: "data = new_message e cid uid txt"
    by (auto simp: insert_single_message_def split: if_splits sum.splits)
  from insert_message_Inr(1,3)[OF ins] uid data show ?thesis by simp
qed

lemma update_last_message_at_ignored:
  "(case update_last_message_at e cid db of Inl _ \<Rightarrow> db | Inr db' \<Rightarrow> db') = db"
  by (simp add: update_last_message_at_def update_conversations_noop)

text \<open>
  The three ways \<open>handleSendMessage\<close> ends. The outcome of the second request does not
  show in any of them.
\<close>

lemma handleSendMessage_returned:
  "\<not> truthy (trim (messageText st)) \<or> or_null (route_id st) = None \<Longrightarrow>
   handleSendMessage e st db = (Returned, st, db)"
  by (auto simp: handleSendMessage_def)

lemma handleSendMessage_logged:
  assumes "truthy (trim (messageText st))" "or_null (route_id st) = Some cid"
      and "insert_single_message e cid (messageText st) db = Inl error"
  shows "handleSendMessage e st db = (Logged error, st\<lparr>sending := False\<rparr>, db)"
  using assms by (simp add: handleSendMessage_def Let_def)

lemma handleSendMessage_sent:
  assumes "truthy (trim (messageText st))" "or_null (route_id st) = Some cid"
      and "insert_single_message e cid (messageText st) db = Inr (data, db1)"
  shows "handleSendMessage e st db =
           (Sent data,
            st\<lparr>messageText := [], messages_state := data # messages_state st,
               sending := False\<rparr>,
            db1)"
  using assms by (simp add: handleSendMessage_def Let_def update_last_message_at_ignored)

lemma handleSendMessage_cases:
  obtains (returned) "handleSendMessage e st db = (Returned, st, db)"
  | (logged) error where "handleSendMessage e st db = (Logged error, st\<lparr>sending := False\<rparr>, db)"
  | (sent) cid data db1 where "or_null (route_id st) = Some cid"
      "insert_single_message e cid (messageText st) db = Inr (data, db1)"
      "handleSendMessage e st db =
           (Sent data,
            st\<lparr>messageText := [], messages_state := data # messages_state st,
               sending := False\<rparr>,
            db1)"
proof (cases "\<not> truthy (trim (messageText st)) \<or> or_null (route_id st) = None")
  case True
  then show thesis using handleSendMessage_returned returned by blast
next
  case False
  then obtain cid where g: "truthy (trim (messageText st))" "or_null (route_id st) = Some cid"
    by auto
  show thesis
  proof (cases "insert_single_message e cid (messageText st) db")
    case (Inl error)
    from handleSendMessage_logged[OF g Inl] show thesis by (rule logged)
  next
    case (Inr res)
    obtain data db1 where res: "res = (data, db1)" by (cases res)
    from handleSendMessage_sent[OF g Inr[unfolded res]] g(2) Inr res show thesis
      using sent by blast
  qed
qed

lemma handleSendMessage_conversations:
  "conversations (snd (snd (handleSendMessage e st db))) = conversations db"
proof (cases e st db rule: handleSendMessage_cases)
  case returned
  then show ?thesis by simp
next
  case (logged error)
  then show ?thesis by simp
next
  case (sent cid data db1)
  from insert_single_message_Inr[OF sent(2)] sent(3) show ?thesis by auto
qed

lemma handleSendMessage_keeps_senders:
  assumes "senders_are_participants db"
  shows "senders_are_participants (snd (snd (handleSendMessage e st db)))"
proof (cases e st db rule: handleSendMessage_cases)
  case returned
  with assms show ?thesis by simp
next
  case (logged error)
  with assms show ?thesis by simp
next
  case (sent cid data db1)
  from insert_single_message_Inr[OF sent(2)] obtain uid where
    u: "auth_uid e = Some uid" "data = new_message e cid uid (messageText st)"
       "db1 = db\<lparr>messages := messages db @ [data]\<rparr>"
       "permitted (message_policies (visible_conversations (auth_uid e) db) SELECT)
                (auth_uid e) data" by blast
  from u(4) u(1,2) have "\<exists>c \<in> set (conversations db). conv_id c = conversation_id data \<and>
        (sender_id data = participant_1_id c \<or> sender_id data = participant_2_id c)"
    unfolding permitted_message_select by (auto simp: new_message_simps)
  with assms show ?thesis
    unfolding sent(3) u(3) by (auto simp: senders_are_participants_def)
qed

lemma getOrCreateConversation_keeps_senders:
  assumes "senders_are_participants db"
      and "getOrCreateConversation e u v l r db = Inr (i, db')"
  shows "senders_are_participants db'"
  using assms(2)
proof (cases rule: getOrCreateConversation_cases)
  case (found c)
  with assms(1) show ?thesis by simp
next
  case created
  from insert_conversation_Inr(1)[OF created(2)] assms(1) show ?thesis
    by (auto simp: senders_are_participants_def)
qed

lemmas example_send_simps =
  handleSendMessage_def insert_single_message_def update_last_message_at_def
  update_conversations_def insert_message_def new_message_def
  visible_conversations_def permitted_def conversation_policies.simps message_policies.simps
  users_can_view_own_conversations_def conversation_participants_can_view_messages_def
  authenticated_users_can_send_messages_def
  matches_def eq_def or_null_def trim_def white_space_def screen_def Let_def

subsection \<open>C2: who can send into a conversation\<close>

text \<open>
  C2, as the specification states it: a message insert into a conversation with a
  \<open>sender_id\<close> that is not one of its two participants is rejected by the policies, so
  that in every state of the store the sender of a message is a participant of its
  conversation. The insert policy compares \<open>sender_id\<close> with the caller and nothing else.
  Carol, who is signed in and is not in the conversation of Alice and Bob, inserts a
  message into it under her own name, without reading the row back: the store takes it,
  and the invariant on senders no longer holds.
\<close>

theorem plain_insert_by_non_participant_counterexample:
  "insert_message False (Some carol) (message_row msg_1 conv_a carol ''hi'' 30)
      (store [conversation_row conv_a alice bob (Some bike) 10] [])
    = Inr (store [conversation_row conv_a alice bob (Some bike) 10]
                 [message_row msg_1 conv_a carol ''hi'' 30])
   \<and> sender_id (message_row msg_1 conv_a carol ''hi'' 30)
        \<noteq> participant_1_id (conversation_row conv_a alice bob (Some bike) 10)
   \<and> sender_id (message_row msg_1 conv_a carol ''hi'' 30)
        \<noteq> participant_2_id (conversation_row conv_a alice bob (Some bike) 10)
   \<and> \<not> senders_are_participants
          (store [conversation_row conv_a alice bob (Some bike) 10]
                 [message_row msg_1 conv_a carol ''hi'' 30])"
  by (simp add: example_send_simps example_message_simps senders_are_participants_def)

text \<open>
  C2, amended: a message insert whose \<open>sender_id\<close> is not the caller is rejected as a
  row-level security violation, and so is an insert that reads the new row back, as the
  send of the application does, by a caller who is not one of the two participants of the
  conversation: \<open>handleSendMessage\<close> by such a caller sends nothing and leaves the store
  as it is. The writes of the application, \<open>handleSendMessage\<close> and
  \<open>getOrCreateConversation\<close>, keep the sender of every message among the participants of
  its conversation.
\<close>

theorem send_by_non_participant:
  assumes "constraints db" "c \<in> set (conversations db)"
      and "uid \<noteq> participant_1_id c" "uid \<noteq> participant_2_id c"
  shows "(auth \<noteq> Some (sender_id row) \<longrightarrow> insert_message ret auth row db = Inl RlsViolation)
       \<and> (conversation_id row = conv_id c
            \<longrightarrow> insert_message True (Some uid) row db = Inl RlsViolation)
       \<and> (auth_uid e = Some uid \<and> or_null (route_id st) = Some (conv_id c)
            \<longrightarrow> snd (snd (handleSendMessage e st db)) = db
              \<and> (\<forall>m. fst (handleSendMessage e st db) \<noteq> Sent m)
              \<and> (truthy (trim (messageText st)) \<and> \<not> fails e 0
                   \<longrightarrow> fst (handleSendMessage e st db) = Logged RlsViolation))
       \<and> (senders_are_participants db
            \<longrightarrow> senders_are_participants (snd (snd (handleSendMessage e' st' db))))
       \<and> (senders_are_participants db \<and> getOrCreateConversation e' u v l r db = Inr (i, db')
            \<longrightarrow> senders_are_participants db')"
proof (intro conjI impI)
  from assms(1) have dc: "distinct (map conv_id (conversations db))"
    by (simp add: constraints_def)
  {
    assume "auth \<noteq> Some (sender_id row)"
    then show "insert_message ret auth row db = Inl RlsViolation"
      by (rule insert_message_wrong_sender)
  next
    assume "conversation_id row = conv_id c"
    then show "insert_message True (Some uid) row db = Inl RlsViolation"
      using assms(3,4) by (intro insert_message_returning_non_participant[OF dc assms(2)]) simp_all
  next
    assume "senders_are_participants db"
    then show "senders_are_participants (snd (snd (handleSendMessage e' st' db)))"
      by (rule handleSendMessage_keeps_senders)
  next
    assume "senders_are_participants db \<and> getOrCreateConversation e' u v l r db = Inr (i, db')"
    then show "senders_are_participants db'"
      using getOrCreateConversation_keeps_senders by blast
  }
  assume app: "auth_uid e = Some uid \<and> or_null (route_id st) = Some (conv_id c)"
  then have ins: "insert_single_message e (conv_id c) (messageText st) db
       = Inl (if fails e 0 then Transport else RlsViolation)"
    using assms(3,4) by (intro insert_single_message_non_participant[OF dc assms(2)]) simp_all
  have either: "handleSendMessage e st db = (Returned, st, db) \<or>
        handleSendMessage e st db =
          (Logged (if fails e 0 then Transport else RlsViolation), st\<lparr>sending := False\<rparr>, db)"
  proof (cases "truthy (trim (messageText st))")
    case True
    from handleSendMessage_logged[OF True _ ins] app show ?thesis by simp
  next
    case False
    then show ?thesis by (simp add: handleSendMessage_returned)
  qed
  then show "snd (snd (handleSendMessage e st db)) = db" by auto
  from either show "\<forall>m. fst (handleSendMessage e st db) \<noteq> Sent m" by auto
  assume "truthy (trim (messageText st)) \<and> \<not> fails e 0"
  with handleSendMessage_logged[OF _ _ ins] app
  show "fst (handleSendMessage e st db) = Logged RlsViolation" by simp
qed

theorem send_by_non_participant_witness:
  "handleSendMessage (session carol msg_1 30) (screen conv_a ''hi'')
      (store [conversation_row conv_a alice bob (Some bike) 10] [])
   = (Logged RlsViolation, screen conv_a ''hi'',
      store [conversation_row conv_a alice bob (Some bike) 10] [])"
proof -
  let ?c = "conversation_row conv_a alice bob (Some bike) 10"
  let ?db = "store [?c] []"
  let ?e = "session carol msg_1 30"
  let ?st = "screen conv_a ''hi''"
  have db: "constraints ?db" "?c \<in> set (conversations ?db)"
    "carol \<noteq> participant_1_id ?c" "carol \<noteq> participant_2_id ?c"
    by (simp_all add: example_message_simps)
  have app: "auth_uid ?e = Some carol \<and> or_null (route_id ?st) = Some (conv_id ?c)"
    and go: "truthy (trim (messageText ?st)) \<and> \<not> fails ?e 0"
    by (simp_all add: example_message_simps screen_def or_null_def trim_def white_space_def)
  note t = send_by_non_participant[OF db, of _ _ _ ?e ?st,
      THEN conjunct2, THEN conjunct2, THEN conjunct1, THEN mp, OF app]
  from t[THEN conjunct1] t[THEN conjunct2, THEN conjunct2, THEN mp, OF go]
  have "snd (snd (handleSendMessage ?e ?st ?db)) = ?db"
    "fst (handleSendMessage ?e ?st ?db) = Logged RlsViolation" .
  moreover have "fst (snd (handleSendMessage ?e ?st ?db)) = ?st"
    by (simp add: example_send_simps example_message_simps)
  ultimately show ?thesis by (metis prod.collapse)
qed

subsection \<open>C9: the two writes of a send\<close>

text \<open>
  C9 says that a send inserts the message and then, in a second write, updates
  \<open>last_message_at\<close> of the conversation. The second request is made, and its outcome is
  ignored (\<open>handleSendMessage_sent\<close>, \<open>handleSendMessage_logged\<close>); but the migration
  enables row-level security on \<open>conversations\<close> and declares no policy for \<open>UPDATE\<close>, so
  the request changes no row (\<open>update_conversations_noop\<close>,
  \<open>handleSendMessage_conversations\<close>). Here Alice sends ``hi'' at time 30 into her
  conversation with Bob, created at time 10: the message is stored and shown, and
  \<open>last_message_at\<close> of the conversation is still 10.
\<close>

theorem handleSendMessage_last_message_at_stale:
  "handleSendMessage (session alice msg_1 30) (screen conv_a ''hi'')
      (store [conversation_row conv_a alice bob (Some bike) 10] [])
   = (Sent (message_row msg_1 conv_a alice ''hi'' 30),
      (screen conv_a [])\<lparr>messages_state := [message_row msg_1 conv_a alice ''hi'' 30]\<rparr>,
      store [conversation_row conv_a alice bob (Some bike) 10]
            [message_row msg_1 conv_a alice ''hi'' 30])
   \<and> last_message_at (conversation_row conv_a alice bob (Some bike) 10) = 10
   \<and> client_now (session alice msg_1 30) = 30"
  by (simp add: example_send_simps example_message_simps)

end
